theory Spec2Isabelle
  imports Complex_Main "HOL-Library.AList" "HOL-Library.List_Lexorder" "HOL-Library.Log_Nat"
begin

section \<open>Python values used by the HS mapping tool\<close>

text \<open>
  A Python \<open>str\<close> is a sequence of Unicode code points.  It is modelled as a list of
  natural numbers (the code points), so that \<open>len\<close> counts what Python counts and the
  whitespace test of \<open>str.strip\<close> can be written for every code point.  Lists of a
  linear order are compared lexicographically (\<open>List_Lexorder\<close>), which is Python's
  string comparison.  \<open>py\<close> turns an ASCII literal into such a string.
\<close>

type_synonym pystr = "nat list"

definition py :: "string \<Rightarrow> pystr" where
  "py s = map of_char s"

text \<open>
  A Python \<open>dict\<close> keeps its keys distinct and in insertion order; storing under a key
  that is present replaces the value in place.  That is an association list updated by
  \<open>AList.update\<close>.  \<open>dict_get d k v\<close> is \<open>d.get(k, v)\<close>.
\<close>

type_synonym ('k, 'v) pydict = "('k \<times> 'v) list"

definition dict_set :: "('k, 'v) pydict \<Rightarrow> 'k \<Rightarrow> 'v \<Rightarrow> ('k, 'v) pydict" where
  "dict_set d k v = AList.update k v d"

definition dict_get :: "('k, 'v) pydict \<Rightarrow> 'k \<Rightarrow> 'v \<Rightarrow> 'v" where
  "dict_get d k dflt = (case map_of d k of None \<Rightarrow> dflt | Some v \<Rightarrow> v)"

text \<open>\<open>dict(zip(keys, values))\<close>: later pairs overwrite earlier ones with the same key.\<close>

definition dict_zip :: "'k list \<Rightarrow> 'v list \<Rightarrow> ('k, 'v) pydict" where
  "dict_zip ks vs = foldl (\<lambda>d (k, v). dict_set d k v) [] (zip ks vs)"

text \<open>\<open>Series.unique()\<close>: the distinct values in order of first appearance.\<close>

fun unique_acc :: "'a list \<Rightarrow> 'a list \<Rightarrow> 'a list" where
  "unique_acc seen [] = seen"
| "unique_acc seen (x # xs) = (if x \<in> set seen then unique_acc seen xs else unique_acc (seen @ [x]) xs)"

definition unique :: "'a list \<Rightarrow> 'a list" where
  "unique xs = unique_acc [] xs"

datatype error = IndexError | KeyError | AttributeError

section \<open>Streamlit's \<open>@st.cache_data\<close>\<close>

text \<open>
  A function decorated with \<open>@st.cache_data\<close> has a cache of its own, which lives as long
  as the process.  The key of a call is made of the arguments whose parameter names do not
  start with an underscore.  A call whose key is in the cache returns the stored value and
  does not run the body; otherwise the body runs, and its value is stored under the key
  unless it raises.  A cache is a dict from keys to values, passed to the function and
  returned by it.

  \<open>build_prefix_lookup(_df, markets)\<close>, \<open>analyze_pairs_cached(_lookup_keys, _lookup_values,
  markets)\<close> and \<open>get_strict_one_to_one_cached(_lookup_keys, _lookup_values, markets)\<close> have
  \<open>markets\<close> as their only hashed parameter: the key is \<open>markets\<close>.  Each of them is
  modelled by its body and by the decorated function around it.  All three parameters of
  \<open>process_tree_data(df, market_name, digits)\<close> are hashed, so a stored value is the
  body's value at the same arguments, and that function is modelled by its body.
\<close>

type_synonym ('k, 'v) cache = "('k, 'v) pydict"

section \<open>Code Normalizer: \<open>process_tree_data\<close>\<close>

subsection \<open>Column selection (lines 29-36)\<close>

text \<open>
  \<open>str.lower\<close> on the ASCII capitals.  No other code point lower-cases to one of the
  letters of \<open>hs\<close>, \<open>hts\<close> or \<open>code\<close>, so for the substring tests below the rest of
  Unicode's case mapping does not matter.
\<close>

definition lower_cp :: "nat \<Rightarrow> nat" where
  "lower_cp c = (if 65 \<le> c \<and> c \<le> 90 then c + 32 else c)"

definition lower :: "pystr \<Rightarrow> pystr" where
  "lower s = map lower_cp s"

text \<open>\<open>startswith\<close> and the substring test \<open>pat in s\<close>.\<close>

fun startswith :: "'a list \<Rightarrow> 'a list \<Rightarrow> bool" where
  "startswith s [] = True"
| "startswith [] (p # ps) = False"
| "startswith (c # cs) (p # ps) = (c = p \<and> startswith cs ps)"

fun contains :: "'a list \<Rightarrow> 'a list \<Rightarrow> bool" where
  "contains [] pat = (pat = [])"
| "contains (c # cs) pat = (startswith (c # cs) pat \<or> contains cs pat)"

definition is_code_col :: "pystr \<Rightarrow> bool" where
  "is_code_col col =
     (let col_lower = lower col
      in contains col_lower (py ''hs'') \<or> contains col_lower (py ''hts'')
         \<or> contains col_lower (py ''code''))"

text \<open>The \<open>for col in df.columns\<close> loop with its \<open>break\<close>: \<open>None\<close> is \<open>code_col is None\<close>.\<close>

fun find_code_col :: "pystr list \<Rightarrow> pystr option" where
  "find_code_col [] = None"
| "find_code_col (col # cols) = (if is_code_col col then Some col else find_code_col cols)"

text \<open>\<open>df.columns[0]\<close> raises \<open>IndexError\<close> on a table without columns.\<close>

definition select_code_col :: "pystr list \<Rightarrow> error + pystr" where
  "select_code_col cols =
     (case find_code_col cols of
        Some col \<Rightarrow> Inr col
      | None \<Rightarrow> (case cols of [] \<Rightarrow> Inl IndexError | col # _ \<Rightarrow> Inr col))"

subsection \<open>Cleaning (lines 40-44)\<close>

text \<open>
  \<open>str.strip()\<close> removes the code points for which \<open>str.isspace\<close> holds, at both ends.
\<close>

definition isspace :: "nat \<Rightarrow> bool" where
  "isspace c \<longleftrightarrow>
     (9 \<le> c \<and> c \<le> 13) \<or> (28 \<le> c \<and> c \<le> 32) \<or> c = 133 \<or> c = 160 \<or> c = 5760
     \<or> (8192 \<le> c \<and> c \<le> 8202) \<or> c = 8232 \<or> c = 8233 \<or> c = 8239 \<or> c = 8287 \<or> c = 12288"

definition strip :: "pystr \<Rightarrow> pystr" where
  "strip s = rev (dropWhile isspace (rev (dropWhile isspace s)))"

text \<open>
  \<open>re.sub(r'\.0$', '', s)\<close>.  In Python \<open>$\<close> matches at the end of the string and also
  just before a newline that ends the string, so the pattern matches a final \<open>.0\<close> and
  the \<open>.0\<close> of a final \<open>.0\n\<close>; there is at most one match.  The function works on the
  reversed string.
\<close>

fun sub_dot0_rev :: "pystr \<Rightarrow> pystr" where
  "sub_dot0_rev (c0 # c1 # c2 # r) =
     (if c0 = 48 \<and> c1 = 46 then c2 # r
      else if c0 = 10 \<and> c1 = 48 \<and> c2 = 46 then c0 # r
      else c0 # c1 # c2 # r)"
| "sub_dot0_rev [c0, c1] = (if c0 = 48 \<and> c1 = 46 then [] else [c0, c1])"
| "sub_dot0_rev r = r"

definition sub_dot0 :: "pystr \<Rightarrow> pystr" where
  "sub_dot0 s = rev (sub_dot0_rev (rev s))"

text \<open>\<open>re.sub(r'[^0-9]', '', s)\<close>: only the ten ASCII digits are in the class.\<close>

definition is_digit :: "nat \<Rightarrow> bool" where
  "is_digit c \<longleftrightarrow> 48 \<le> c \<and> c \<le> 57"

definition sub_non_digits :: "pystr \<Rightarrow> pystr" where
  "sub_non_digits s = filter is_digit s"

definition clean_code :: "pystr \<Rightarrow> pystr" where
  "clean_code cell = sub_non_digits (sub_dot0 (strip cell))"

text \<open>The slice \<open>s[:digits]\<close>; a negative bound counts from the end.\<close>

definition slice_to :: "'a list \<Rightarrow> int \<Rightarrow> 'a list" where
  "slice_to s d = (if 0 \<le> d then take (nat d) s else take (length s - nat (- d)) s)"

text \<open>
  The rows of the normalized tables.  A tree row has the columns \<open>market\<close>, \<open>hs_code\<close>
  and \<open>prefix\<close>; a row of the entity table has \<open>ASIN\<close>, \<open>hs_code\<close> and \<open>prefix\<close>.
\<close>

record coded =
  hs_code :: pystr
  prefix :: pystr

record tree_row = coded +
  market :: pystr

record asin_row = coded +
  ASIN :: pystr

text \<open>
  The input table is the list of its columns, each a label (after \<open>str(col)\<close>) with its
  cells read as text (\<open>dtype=str\<close>, \<open>astype(str)\<close>).  \<open>read_excel\<close> makes the labels distinct;
  \<open>df[code_col]\<close> is the column of that label.
\<close>

type_synonym dataframe = "(pystr \<times> pystr list) list"

definition process_tree_data ::
  "dataframe \<Rightarrow> pystr \<Rightarrow> int \<Rightarrow> error + (tree_row list \<times> pystr \<times> nat)" where
  "process_tree_data df market_name digits =
     (case select_code_col (map fst df) of
        Inl e \<Rightarrow> Inl e
      | Inr code_col \<Rightarrow>
          (case map_of df code_col of
             None \<Rightarrow> Inl KeyError
           | Some cells \<Rightarrow>
               let cleaned = map clean_code cells;
                   kept = filter (\<lambda>c. 4 \<le> length c) cleaned;
                   result = map (\<lambda>c. \<lparr>hs_code = c, prefix = slice_to c digits,
                                        market = market_name\<rparr>) kept
               in Inr (result, code_col, length result)))"

definition DIGITS :: int where
  "DIGITS = 6"


section \<open>Prefix Index Builder: \<open>build_prefix_lookup\<close>\<close>

text \<open>
  The index maps a prefix to a dict from market to the list of that market's distinct codes
  at the prefix.  \<open>groupby("prefix")\<close> yields the groups in ascending order of the prefix.
\<close>

type_synonym market_codes = "(pystr, pystr list) pydict"

type_synonym lookup = "(pystr, market_codes) pydict"

fun build_markets :: "tree_row list \<Rightarrow> pystr list \<Rightarrow> market_codes \<Rightarrow> market_codes" where
  "build_markets grp [] d = d"
| "build_markets grp (m # markets) d =
     (let codes = unique (map hs_code (filter (\<lambda>r. market r = m) grp))
      in build_markets grp markets (dict_set d m codes))"

fun build_groups :: "tree_row list \<Rightarrow> pystr list \<Rightarrow> pystr list \<Rightarrow> lookup \<Rightarrow> lookup" where
  "build_groups df markets [] lookup = lookup"
| "build_groups df markets (p # ps) lookup =
     (let grp = filter (\<lambda>r. prefix r = p) df
      in build_groups df markets ps (dict_set lookup p (build_markets grp markets [])))"

text \<open>The body (lines 52-63).\<close>

definition build_prefix_lookup_body :: "tree_row list \<Rightarrow> pystr list \<Rightarrow> lookup" where
  "build_prefix_lookup_body df markets =
     build_groups df markets (sort (unique (map prefix df))) []"

text \<open>The decorated function; \<open>df\<close> is the unhashed \<open>_df\<close>.\<close>

definition build_prefix_lookup ::
  "(pystr list, lookup) cache \<Rightarrow> tree_row list \<Rightarrow> pystr list
     \<Rightarrow> lookup \<times> (pystr list, lookup) cache" where
  "build_prefix_lookup cache df markets =
     (case map_of cache markets of
        Some lookup \<Rightarrow> (lookup, cache)
      | None \<Rightarrow>
          (let lookup = build_prefix_lookup_body df markets
           in (lookup, dict_set cache markets lookup)))"

section \<open>Report rows\<close>

text \<open>
  Every report row is a Python dict from a column name to a cell.  The column names are
  built by f-strings from market names; they are modelled by a datatype whose constructors
  stand for the patterns, which never produce the same text for different arguments:
  \<open>Count A\<close> is \<open>f"{A}_Count"\<close>, \<open>Code A i\<close> is \<open>f"{A}_Code_{i}"\<close> (with \<open>1 \<le> i \<le> 5\<close>),
  \<open>Code_of m\<close> is \<open>f"Code_{m}"\<close>, \<open>Relation_of t\<close> is \<open>f"{t}_Relation"\<close>, and
  \<open>HS_Prefix\<close>, \<open>Relation\<close>, \<open>ASIN_col\<close>, \<open>Source_Code\<close>, \<open>Prefix\<close> are the fixed names
  \<open>"HS Prefix"\<close>, \<open>"Relation"\<close>, \<open>"ASIN"\<close>, \<open>"Source_Code"\<close>, \<open>"Prefix"\<close>.
  The relation labels \<open>"No Match"\<close>, \<open>"One-to-One"\<close>, \<open>"One-to-Many"\<close>, \<open>"Many-to-One"\<close>
  and \<open>"Many-to-Many"\<close> are the constructors of \<open>relation\<close>.
\<close>

datatype relation = NoMatch | OneToOne | OneToMany | ManyToOne | ManyToMany

datatype column =
    HS_Prefix | Relation | Count pystr | Code pystr nat
  | Code_of pystr
  | ASIN_col | Source_Code | Prefix | Relation_of pystr

datatype cell = Text pystr | Num nat | Rel relation

type_synonym row = "(column, cell) pydict"

text \<open>
  \<open>for i, code in enumerate(sorted(codes)[:5], 1): row[f"{m}_Code_{i}"] = code\<close>
\<close>

fun set_codes :: "row \<Rightarrow> pystr \<Rightarrow> (nat \<times> pystr) list \<Rightarrow> row" where
  "set_codes r m [] = r"
| "set_codes r m ((i, code) # rest) = set_codes (dict_set r (Code m i) (Text code)) m rest"

definition sample_codes :: "pystr list \<Rightarrow> (nat \<times> pystr) list" where
  "sample_codes codes = enumerate 1 (take 5 (sort codes))"

section \<open>Pairwise Relation Classifier: \<open>analyze_pairs_cached\<close>\<close>

text \<open>\<open>itertools.combinations(markets, 2)\<close>\<close>

fun combinations2 :: "'a list \<Rightarrow> ('a \<times> 'a) list" where
  "combinations2 [] = []"
| "combinations2 (x # xs) = map (Pair x) xs @ combinations2 xs"

text \<open>
  An entry of the index as the two functions below receive it.  Their bodies read it with
  \<open>market_codes.get(market, [])\<close>, which a dict answers.  The Analysis page (lines 340-341)
  passes \<open>tuple(lookup.keys())\<close> and, for every value of the index,
  \<open>tuple((k, tuple(v)) for k, v in val.items())\<close>: a tuple of (market, codes) pairs, which
  has no \<open>get\<close>, so that the attribute access raises \<open>AttributeError\<close>.
\<close>

datatype entry = Dict market_codes | Tuple "(pystr \<times> pystr list) list"

definition entry_get :: "entry \<Rightarrow> pystr \<Rightarrow> error + pystr list" where
  "entry_get market_codes m =
     (case market_codes of
        Dict d \<Rightarrow> Inr (dict_get d m [])
      | Tuple t \<Rightarrow> Inl AttributeError)"

definition lookup_keys_of :: "lookup \<Rightarrow> pystr list" where
  "lookup_keys_of lookup = map fst lookup"

definition lookup_values_of :: "lookup \<Rightarrow> entry list" where
  "lookup_values_of lookup = map (\<lambda>(p, val). Tuple val) lookup"

text \<open>
  \<open>pair_stats\<close> starts with the five counters; \<open>total_shared\<close> and \<open>percentage\<close> are added
  after the loop over the prefixes.
\<close>

record pair_stats =
  one_to_one :: nat
  one_to_many :: nat
  many_to_one :: nat
  many_to_many :: nat
  no_match :: nat

record pair_summary = pair_stats +
  total_shared :: nat
  percentage :: rat

definition pair_stats0 :: pair_stats where
  "pair_stats0 = \<lparr>one_to_one = 0, one_to_many = 0, many_to_one = 0, many_to_many = 0, no_match = 0\<rparr>"

text \<open>The chain of lines 83-97: the relation and the counter it increments.\<close>

definition classify :: "nat \<Rightarrow> nat \<Rightarrow> pair_stats \<Rightarrow> relation \<times> pair_stats" where
  "classify cA cB pair_stats =
     (if cA = 0 \<or> cB = 0 then (NoMatch, pair_stats\<lparr>no_match := no_match pair_stats + 1\<rparr>)
      else if cA = 1 \<and> cB = 1 then (OneToOne, pair_stats\<lparr>one_to_one := one_to_one pair_stats + 1\<rparr>)
      else if cA = 1 \<and> cB > 1 then (OneToMany, pair_stats\<lparr>one_to_many := one_to_many pair_stats + 1\<rparr>)
      else if cA > 1 \<and> cB = 1 then (ManyToOne, pair_stats\<lparr>many_to_one := many_to_one pair_stats + 1\<rparr>)
      else (ManyToMany, pair_stats\<lparr>many_to_many := many_to_many pair_stats + 1\<rparr>))"

text \<open>The row of lines 99-105.\<close>

definition pair_row ::
  "pystr \<Rightarrow> relation \<Rightarrow> pystr \<Rightarrow> pystr list \<Rightarrow> pystr \<Rightarrow> pystr list \<Rightarrow> row" where
  "pair_row prefix' relation A codes_A B codes_B =
     (let row = dict_set (dict_set (dict_set (dict_set [] HS_Prefix (Text prefix'))
                  Relation (Rel relation)) (Count A) (Num (length codes_A)))
                  (Count B) (Num (length codes_B));
          row = set_codes row A (sample_codes codes_A);
          row = set_codes row B (sample_codes codes_B)
      in row)"

text \<open>
  The loop \<open>for prefix, market_codes in lookup.items()\<close> (lines 78-107).  The two \<open>get\<close>
  calls of lines 79-80 come first; an error ends the loop and the function.
\<close>

fun classify_prefixes ::
  "(pystr \<times> entry) list \<Rightarrow> pystr \<Rightarrow> pystr \<Rightarrow> row list \<times> pair_stats
     \<Rightarrow> error + row list \<times> pair_stats" where
  "classify_prefixes [] A B st = Inr st"
| "classify_prefixes ((prefix', market_codes) # items) A B (rows, pair_stats) =
     (case entry_get market_codes A of
        Inl e \<Rightarrow> Inl e
      | Inr codes_A \<Rightarrow>
          (case entry_get market_codes B of
             Inl e \<Rightarrow> Inl e
           | Inr codes_B \<Rightarrow>
               (let cA = length codes_A;
                    cB = length codes_B;
                    (relation, pair_stats') = classify cA cB pair_stats;
                    row = pair_row prefix' relation A codes_A B codes_B
                in classify_prefixes items A B (rows @ [row], pair_stats'))))"

text \<open>
  Python's floats are IEEE binary64 numbers.  \<open>float_round x\<close> is the binary64 number
  nearest to a rational \<open>x \<ge> 0\<close>, ties going to the even significand: with
  \<open>2 ^ k \<le> x < 2 ^ (k + 1)\<close> the unit in the last place is \<open>2 ^ (k - 52)\<close>, and \<open>2 ^ (-1074)\<close>
  for the subnormal numbers.  (Overflow is left out: no value here exceeds 100.)  The true
  division of two ints and the product of two floats are the exact results rounded that way.
\<close>

definition round_half_even :: "rat \<Rightarrow> int" where
  "round_half_even q =
     (let f = \<lfloor>q\<rfloor>; r = q - of_int f
      in if r < 1 / 2 then f else if 1 / 2 < r then f + 1 else if even f then f else f + 1)"

definition ilog2 :: "rat \<Rightarrow> int" where
  "ilog2 x =
     (let (a, b) = quotient_of x; d = bitlen a - bitlen b
      in if 2 powi d \<le> x then d else d - 1)"

definition float_round :: "rat \<Rightarrow> rat" where
  "float_round x =
     (if x = 0 then 0
      else let e = max (ilog2 x - 52) (- 1074)
           in of_int (round_half_even (x / 2 powi e)) * 2 powi e)"

definition truediv :: "nat \<Rightarrow> nat \<Rightarrow> rat" where
  "truediv a b = float_round (of_nat a / of_nat b)"

definition float_mul :: "rat \<Rightarrow> rat \<Rightarrow> rat" where
  "float_mul x y = float_round (x * y)"

text \<open>Lines 111-113.  (\<open>truediv\<close> is only called with a positive divisor.)\<close>

definition summarize :: "pair_stats \<Rightarrow> pair_summary" where
  "summarize pair_stats =
     (let total = one_to_one pair_stats + one_to_many pair_stats + many_to_one pair_stats
                  + many_to_many pair_stats
      in \<lparr>one_to_one = one_to_one pair_stats, one_to_many = one_to_many pair_stats,
          many_to_one = many_to_one pair_stats, many_to_many = many_to_many pair_stats,
          no_match = no_match pair_stats,
          total_shared = total,
          percentage = (if total > 0 then float_mul (truediv (one_to_one pair_stats) total) 100
                        else 0)\<rparr>)"

text \<open>The loop \<open>for A, B in combinations(markets, 2)\<close>.\<close>

type_synonym results = "(pystr \<times> pystr, row list) pydict"

type_synonym stats = "(pystr \<times> pystr, pair_summary) pydict"

fun analyze_pairs ::
  "(pystr \<times> pystr) list \<Rightarrow> (pystr, entry) pydict \<Rightarrow> results \<times> stats
     \<Rightarrow> error + results \<times> stats" where
  "analyze_pairs [] lookup acc = Inr acc"
| "analyze_pairs ((A, B) # pairs) lookup (results, stats) =
     (case classify_prefixes lookup A B ([], pair_stats0) of
        Inl e \<Rightarrow> Inl e
      | Inr (rows, pair_stats) \<Rightarrow>
          analyze_pairs pairs lookup
            (dict_set results (A, B) rows, dict_set stats (A, B) (summarize pair_stats)))"

text \<open>The body (lines 68-116).\<close>

definition analyze_pairs_body ::
  "pystr list \<Rightarrow> entry list \<Rightarrow> pystr list \<Rightarrow> error + results \<times> stats" where
  "analyze_pairs_body lookup_keys lookup_values markets =
     (let lookup = dict_zip lookup_keys lookup_values
      in analyze_pairs (combinations2 markets) lookup ([], []))"

text \<open>
  The decorated function; \<open>lookup_keys\<close> and \<open>lookup_values\<close> are the unhashed
  \<open>_lookup_keys\<close> and \<open>_lookup_values\<close>.
\<close>

definition analyze_pairs_cached ::
  "(pystr list, results \<times> stats) cache \<Rightarrow> pystr list \<Rightarrow> entry list \<Rightarrow> pystr list
     \<Rightarrow> (error + results \<times> stats) \<times> (pystr list, results \<times> stats) cache" where
  "analyze_pairs_cached cache lookup_keys lookup_values markets =
     (case map_of cache markets of
        Some stored \<Rightarrow> (Inr stored, cache)
      | None \<Rightarrow>
          (case analyze_pairs_body lookup_keys lookup_values markets of
             Inl e \<Rightarrow> (Inl e, cache)
           | Inr result \<Rightarrow> (Inr result, dict_set cache markets result)))"

section \<open>Strict Alignment Extractor: \<open>get_strict_one_to_one_cached\<close>\<close>

text \<open>
  The loop over the markets (lines 129-137) with its \<open>break\<close>; the state is
  \<open>(is_strict, codes_found, markets_with_codes)\<close>.
\<close>

fun scan_markets ::
  "pystr list \<Rightarrow> entry \<Rightarrow> bool \<times> (pystr, pystr) pydict \<times> nat
     \<Rightarrow> error + bool \<times> (pystr, pystr) pydict \<times> nat" where
  "scan_markets [] market_codes st = Inr st"
| "scan_markets (m # markets) market_codes (is_strict, codes_found, markets_with_codes) =
     (case entry_get market_codes m of
        Inl e \<Rightarrow> Inl e
      | Inr codes \<Rightarrow>
          if length codes > 0
          then (if length codes = 1
                then scan_markets markets market_codes
                       (is_strict, dict_set codes_found m (codes ! 0), markets_with_codes + 1)
                else Inr (False, codes_found, markets_with_codes + 1))
          else scan_markets markets market_codes (is_strict, codes_found, markets_with_codes))"

text \<open>\<open>for market in markets: row[f"Code_{market}"] = codes_found.get(market, "")\<close>\<close>

fun fill_row :: "row \<Rightarrow> pystr list \<Rightarrow> (pystr, pystr) pydict \<Rightarrow> row" where
  "fill_row r [] codes_found = r"
| "fill_row r (m # markets) codes_found =
     fill_row (dict_set r (Code_of m) (Text (dict_get codes_found m []))) markets codes_found"

text \<open>The loop over the prefixes (lines 124-143).\<close>

fun strict_prefixes ::
  "(pystr \<times> entry) list \<Rightarrow> pystr list \<Rightarrow> row list \<Rightarrow> error + row list" where
  "strict_prefixes [] markets rows = Inr rows"
| "strict_prefixes ((prefix', market_codes) # items) markets rows =
     (case scan_markets markets market_codes (True, [], 0) of
        Inl e \<Rightarrow> Inl e
      | Inr (is_strict, codes_found, markets_with_codes) \<Rightarrow>
          if is_strict \<and> markets_with_codes \<ge> 2
          then strict_prefixes items markets
                 (rows @ [fill_row (dict_set [] HS_Prefix (Text prefix')) markets codes_found])
          else strict_prefixes items markets rows)"

text \<open>The body (lines 121-145).\<close>

definition get_strict_one_to_one_body ::
  "pystr list \<Rightarrow> entry list \<Rightarrow> pystr list \<Rightarrow> error + row list" where
  "get_strict_one_to_one_body lookup_keys lookup_values markets =
     (let lookup = dict_zip lookup_keys lookup_values
      in strict_prefixes lookup markets [])"

text \<open>The decorated function.\<close>

definition get_strict_one_to_one_cached ::
  "(pystr list, row list) cache \<Rightarrow> pystr list \<Rightarrow> entry list \<Rightarrow> pystr list
     \<Rightarrow> (error + row list) \<times> (pystr list, row list) cache" where
  "get_strict_one_to_one_cached cache lookup_keys lookup_values markets =
     (case map_of cache markets of
        Some stored \<Rightarrow> (Inr stored, cache)
      | None \<Rightarrow>
          (case get_strict_one_to_one_body lookup_keys lookup_values markets of
             Inl e \<Rightarrow> (Inl e, cache)
           | Inr result \<Rightarrow> (Inr result, dict_set cache markets result)))"

section \<open>Entity Mapper: \<open>map_asins_fast\<close>\<close>

text \<open>The chain of lines 174-183.\<close>

definition map_relation :: "nat \<Rightarrow> nat \<Rightarrow> relation" where
  "map_relation sc tc =
     (if tc = 0 then NoMatch
      else if sc = 1 \<and> tc = 1 then OneToOne
      else if sc = 1 \<and> tc > 1 then OneToMany
      else if sc > 1 \<and> tc = 1 then ManyToOne
      else ManyToMany)"

text \<open>The loop \<open>for target in target_markets\<close> (lines 170-187).\<close>

fun map_targets :: "pystr list \<Rightarrow> market_codes \<Rightarrow> nat \<Rightarrow> row \<Rightarrow> row" where
  "map_targets [] market_codes sc result = result"
| "map_targets (target # targets) market_codes sc result =
     (let target_codes = dict_get market_codes target [];
          tc = length target_codes;
          relation = map_relation sc tc;
          result = dict_set result (Relation_of target) (Rel relation);
          result = set_codes result target (sample_codes target_codes)
      in map_targets targets market_codes sc result)"

text \<open>The dict comprehension \<open>{p: lookup.get(p, {}) for p in prefixes}\<close>.\<close>

fun mini_lookup_of :: "pystr list \<Rightarrow> lookup \<Rightarrow> lookup \<Rightarrow> lookup" where
  "mini_lookup_of [] lookup mini = mini"
| "mini_lookup_of (p # ps) lookup mini = mini_lookup_of ps lookup (dict_set mini p (dict_get lookup p []))"

text \<open>The body of the loop over the entities (lines 158-187): the result of one entity.\<close>

definition map_row :: "asin_row \<Rightarrow> lookup \<Rightarrow> pystr \<Rightarrow> pystr list \<Rightarrow> row" where
  "map_row r mini_lookup source_market target_markets =
     (let prefix' = prefix r;
          market_codes = dict_get mini_lookup prefix' [];
          result = dict_set (dict_set (dict_set [] ASIN_col (Text (ASIN r)))
                     Source_Code (Text (hs_code r))) Prefix (Text prefix');
          source_codes = dict_get market_codes source_market [];
          sc = length source_codes
      in map_targets target_markets market_codes sc result)"

text \<open>The loop \<open>for _, row in asin_df.iterrows()\<close> (lines 157-189).\<close>

fun map_rows :: "asin_row list \<Rightarrow> lookup \<Rightarrow> pystr \<Rightarrow> pystr list \<Rightarrow> row list \<Rightarrow> row list" where
  "map_rows [] mini_lookup source_market target_markets results = results"
| "map_rows (r # rest) mini_lookup source_market target_markets results =
     map_rows rest mini_lookup source_market target_markets
       (results @ [map_row r mini_lookup source_market target_markets])"

definition map_asins_fast :: "asin_row list \<Rightarrow> lookup \<Rightarrow> pystr \<Rightarrow> pystr list \<Rightarrow> row list" where
  "map_asins_fast asin_df lookup source_market target_markets =
     (let prefixes = unique (map prefix asin_df);
          mini_lookup = mini_lookup_of prefixes lookup []
      in map_rows asin_df mini_lookup source_market target_markets [])"

section \<open>The specification's wording\<close>

text \<open>
  A column name matches a pattern case-insensitively when some part of it equals the
  pattern up to case.
\<close>

definition ci_substring :: "pystr \<Rightarrow> pystr \<Rightarrow> bool" where
  "ci_substring pat col \<longleftrightarrow> (\<exists>u v w. col = u @ v @ w \<and> lower v = lower pat)"

definition hs_like :: "pystr \<Rightarrow> bool" where
  "hs_like col \<longleftrightarrow>
     ci_substring (py ''hs'') col \<or> ci_substring (py ''hts'') col \<or> ci_substring (py ''code'') col"

text \<open>
  The normalization rule: trim whitespace, strip one trailing literal \<open>.0\<close>, remove
  every character that is not a digit.
\<close>

definition endswith :: "'a list \<Rightarrow> 'a list \<Rightarrow> bool" where
  "endswith t suf \<longleftrightarrow> length suf \<le> length t \<and> drop (length t - length suf) t = suf"

definition removesuffix :: "'a list \<Rightarrow> 'a list \<Rightarrow> 'a list" where
  "removesuffix t suf = (if endswith t suf then take (length t - length suf) t else t)"

definition normalize_spec :: "pystr \<Rightarrow> pystr" where
  "normalize_spec cell = filter is_digit (removesuffix (strip cell) (py ''.0''))"

text \<open>The classification rule of the pairwise classifier, as the specification gives it.\<close>

definition relation_spec :: "nat \<Rightarrow> nat \<Rightarrow> relation" where
  "relation_spec cA cB =
     (if cA = 0 \<or> cB = 0 then NoMatch
      else if cA = 1 \<and> cB = 1 then OneToOne
      else if cA = 1 \<and> cB > 1 then OneToMany
      else if cA > 1 \<and> cB = 1 then ManyToOne
      else ManyToMany)"

section \<open>Notions used in the statements\<close>

text \<open>
  The distinct codes a market has at a prefix in the combined table of the loaded trees,
  and their number.
\<close>

definition codes_at :: "tree_row list \<Rightarrow> pystr \<Rightarrow> pystr \<Rightarrow> pystr set" where
  "codes_at df m p = hs_code ` {r \<in> set df. market r = m \<and> prefix r = p}"

definition code_count :: "tree_row list \<Rightarrow> pystr \<Rightarrow> pystr \<Rightarrow> nat" where
  "code_count df m p = card (hs_code ` {r \<in> set df. market r = m \<and> prefix r = p})"

text \<open>
  The index with every entry a dict, and what the loop of the pairwise classifier computes
  from such entries: the relation of two markets at an entry, the row of an entry and the
  counters after a list of entries.
\<close>

definition dict_entries :: "lookup \<Rightarrow> (pystr, entry) pydict" where
  "dict_entries lookup = map (\<lambda>(p, mc). (p, Dict mc)) lookup"

definition rel_at :: "pystr \<Rightarrow> pystr \<Rightarrow> market_codes \<Rightarrow> relation" where
  "rel_at A B mc = relation_spec (length (dict_get mc A [])) (length (dict_get mc B []))"

definition row_at :: "pystr \<Rightarrow> pystr \<Rightarrow> pystr \<times> market_codes \<Rightarrow> row" where
  "row_at A B it =
     pair_row (fst it) (rel_at A B (snd it)) A (dict_get (snd it) A []) B (dict_get (snd it) B [])"

definition tally :: "pystr \<Rightarrow> pystr \<Rightarrow> lookup \<Rightarrow> pair_stats \<Rightarrow> pair_stats" where
  "tally A B items ps =
     \<lparr>one_to_one = one_to_one ps + length (filter (\<lambda>it. rel_at A B (snd it) = OneToOne) items),
      one_to_many = one_to_many ps + length (filter (\<lambda>it. rel_at A B (snd it) = OneToMany) items),
      many_to_one = many_to_one ps + length (filter (\<lambda>it. rel_at A B (snd it) = ManyToOne) items),
      many_to_many = many_to_many ps + length (filter (\<lambda>it. rel_at A B (snd it) = ManyToMany) items),
      no_match = no_match ps + length (filter (\<lambda>it. rel_at A B (snd it) = NoMatch) items)\<rparr>"

text \<open>
  What the strict extractor computes from an entry that is a dict: the test of line 139 in
  terms of the code counts, the codes found by the loop over the markets when no market has
  more than one code, and the row of lines 140-142.
\<close>

definition qualifies :: "pystr list \<Rightarrow> pystr \<times> market_codes \<Rightarrow> bool" where
  "qualifies ms it \<longleftrightarrow>
     (\<forall>m\<in>set ms. length (dict_get (snd it) m []) \<le> 1)
     \<and> 2 \<le> length (filter (\<lambda>m. length (dict_get (snd it) m []) = 1) ms)"

fun found_codes :: "pystr list \<Rightarrow> market_codes \<Rightarrow> (pystr, pystr) pydict \<Rightarrow> (pystr, pystr) pydict" where
  "found_codes [] mc cf = cf"
| "found_codes (m # ms) mc cf =
     (if length (dict_get mc m []) = 1 then found_codes ms mc (dict_set cf m (dict_get mc m [] ! 0))
      else found_codes ms mc cf)"

definition strict_row :: "pystr list \<Rightarrow> pystr \<times> market_codes \<Rightarrow> row" where
  "strict_row ms it =
     fill_row (dict_set [] HS_Prefix (Text (fst it))) ms (found_codes ms (snd it) [])"

text \<open>
  The result of the pairwise classifier's body on an index whose entries are dicts: one
  step of the loop over the pairs, and the whole report.
\<close>

definition report_step :: "lookup \<Rightarrow> results \<times> stats \<Rightarrow> pystr \<times> pystr \<Rightarrow> results \<times> stats" where
  "report_step L acc pr =
     (dict_set (fst acc) pr (map (row_at (fst pr) (snd pr)) L),
      dict_set (snd acc) pr (summarize (tally (fst pr) (snd pr) L pair_stats0)))"

definition report_of :: "lookup \<Rightarrow> pystr list \<Rightarrow> results \<times> stats" where
  "report_of L markets = foldl (report_step L) ([], []) (combinations2 markets)"

text \<open>
  The arguments the Analysis page passes (lines 337-341) when \<open>build_prefix_lookup\<close> has
  nothing stored: the keys of the index and its values as tuples of pairs.
\<close>

definition page_keys :: "tree_row list \<Rightarrow> pystr list \<Rightarrow> pystr list" where
  "page_keys df markets = lookup_keys_of (fst (build_prefix_lookup [] df markets))"

definition page_values :: "tree_row list \<Rightarrow> pystr list \<Rightarrow> entry list" where
  "page_values df markets = lookup_values_of (fst (build_prefix_lookup [] df markets))"

text \<open>
  Example data.  \<open>scenario_df\<close> is the scenario of the specification: at prefix 100001,
  UAE has one code and KSA two.  In \<open>aligned_df\<close> both markets have one code at the
  prefix; in \<open>ksa_only_df\<close> only KSA has a code at prefix 090000, the prefix of \<open>entity\<close>.
\<close>

definition UAE :: pystr where
  "UAE = py ''UAE''"

definition KSA :: pystr where
  "KSA = py ''KSA''"

definition scenario_df :: "tree_row list" where
  "scenario_df =
     [\<lparr>hs_code = py ''10000110'', prefix = py ''100001'', market = UAE\<rparr>,
      \<lparr>hs_code = py ''10000110'', prefix = py ''100001'', market = KSA\<rparr>,
      \<lparr>hs_code = py ''10000120'', prefix = py ''100001'', market = KSA\<rparr>]"

definition aligned_df :: "tree_row list" where
  "aligned_df =
     [\<lparr>hs_code = py ''10000110'', prefix = py ''100001'', market = UAE\<rparr>,
      \<lparr>hs_code = py ''10000120'', prefix = py ''100001'', market = KSA\<rparr>]"

definition ksa_only_df :: "tree_row list" where
  "ksa_only_df = [\<lparr>hs_code = py ''0900001'', prefix = py ''090000'', market = KSA\<rparr>]"

definition entity :: asin_row where
  "entity = \<lparr>hs_code = py ''09000055'', prefix = py ''090000'', ASIN = py ''B01''\<rparr>"

text \<open>
  The caches after a first analysis of UAE and KSA in which no row of the two trees had
  passed the length filter, so that the index was empty; and the report of that analysis.
\<close>

definition first_run_pairs_cache :: "(pystr list, results \<times> stats) cache" where
  "first_run_pairs_cache = snd (analyze_pairs_cached [] [] [] [UAE, KSA])"

definition first_run_strict_cache :: "(pystr list, row list) cache" where
  "first_run_strict_cache = snd (get_strict_one_to_one_cached [] [] [] [UAE, KSA])"

definition empty_report :: "results \<times> stats" where
  "empty_report =
     ([((UAE, KSA), [])],
      [((UAE, KSA), \<lparr>one_to_one = 0, one_to_many = 0, many_to_one = 0, many_to_many = 0,
                       no_match = 0, total_shared = 0, percentage = 0\<rparr>)])"


section \<open>Properties of the dict operations\<close>

lemma map_of_dict_set: "map_of (dict_set d k v) = (map_of d)(k \<mapsto> v)"
  by (simp add: dict_set_def update_conv')

lemma keys_dict_set: "fst ` set (dict_set d k v) = insert k (fst ` set d)"
  by (simp add: dict_set_def dom_update)

lemma distinct_dict_set: "distinct (map fst d) \<Longrightarrow> distinct (map fst (dict_set d k v))"
  by (simp add: dict_set_def distinct_update)

lemma dict_set_new: "k \<notin> fst ` set d \<Longrightarrow> dict_set d k v = d @ [(k, v)]"
  by (induction d) (auto simp: dict_set_def)

lemma dict_get_dict_set: "dict_get (dict_set d k v) k' dflt = (if k' = k then v else dict_get d k' dflt)"
  by (simp add: dict_get_def map_of_dict_set)

lemma dict_get_Nil: "dict_get [] k dflt = dflt"
  by (simp add: dict_get_def)

lemma dict_get_absent: "k \<notin> fst ` set d \<Longrightarrow> dict_get d k dflt = dflt"
  by (simp add: dict_get_def map_of_eq_None_iff[THEN iffD2])

lemma dict_get_member: "distinct (map fst d) \<Longrightarrow> (k, v) \<in> set d \<Longrightarrow> dict_get d k dflt = v"
  by (simp add: dict_get_def)

lemma foldl_dict_set_distinct:
  "distinct (map fst d) \<Longrightarrow> distinct (map fst (foldl (\<lambda>d (k, v). dict_set d k v) d kvs))"
  by (induction kvs arbitrary: d) (auto simp: distinct_dict_set)

lemma foldl_dict_set_keys:
  "fst ` set (foldl (\<lambda>d (k, v). dict_set d k v) d kvs) = fst ` set d \<union> fst ` set kvs"
proof (induction kvs arbitrary: d)
  case Nil
  then show ?case by simp
next
  case (Cons kv kvs)
  obtain k v where kv: "kv = (k, v)" by (cases kv)
  have "fst ` set (foldl (\<lambda>d (k, v). dict_set d k v) (dict_set d k v) kvs)
          = insert k (fst ` set d) \<union> fst ` set kvs"
    by (simp only: Cons.IH keys_dict_set)
  then show ?case unfolding kv by simp
qed

lemma foldl_dict_set_fresh:
  "distinct (map fst kvs) \<Longrightarrow> fst ` set d \<inter> fst ` set kvs = {} \<Longrightarrow>
     foldl (\<lambda>d (k, v). dict_set d k v) d kvs = d @ kvs"
proof (induction kvs arbitrary: d)
  case Nil
  then show ?case by simp
next
  case (Cons kv kvs)
  obtain k v where kv: "kv = (k, v)" by (cases kv)
  from Cons.prems kv have new: "k \<notin> fst ` set d" by auto
  have "fst ` set (d @ [(k, v)]) \<inter> fst ` set kvs = {}"
    using Cons.prems kv by auto
  moreover have "distinct (map fst kvs)" using Cons.prems by simp
  ultimately have "foldl (\<lambda>d (k, v). dict_set d k v) (d @ [(k, v)]) kvs = (d @ [(k, v)]) @ kvs"
    by (rule Cons.IH[rotated])
  then show ?case using kv new by (simp add: dict_set_new)
qed

lemma distinct_dict_zip: "distinct (map fst (dict_zip ks vs))"
  unfolding dict_zip_def by (rule foldl_dict_set_distinct) simp

lemma keys_dict_zip: "fst ` set (dict_zip ks vs) = fst ` set (zip ks vs)"
  unfolding dict_zip_def by (simp add: foldl_dict_set_keys)

lemma length_dict_zip: "length (dict_zip ks vs) = card (fst ` set (zip ks vs))"
proof -
  have "length (dict_zip ks vs) = length (map fst (dict_zip ks vs))" by simp
  also have "\<dots> = card (set (map fst (dict_zip ks vs)))"
    using distinct_dict_zip[of ks vs] by (simp only: distinct_card)
  also have "\<dots> = card (fst ` set (zip ks vs))" by (simp add: keys_dict_zip)
  finally show ?thesis .
qed

lemma dict_zip_items: "distinct (map fst d) \<Longrightarrow> dict_zip (map fst d) (map snd d) = d"
proof -
  assume "distinct (map fst d)"
  moreover have "zip (map fst d) (map snd d) = d" by (simp add: zip_map_fst_snd)
  ultimately show ?thesis
    unfolding dict_zip_def using foldl_dict_set_fresh[of d "[]"] by simp
qed


section \<open>Properties of the Code Normalizer\<close>

subsection \<open>Column selection\<close>

lemma startswith_iff: "startswith s pat \<longleftrightarrow> (\<exists>w. s = pat @ w)"
  by (induction s pat rule: startswith.induct) auto

lemma contains_iff: "contains s pat \<longleftrightarrow> (\<exists>u w. s = u @ pat @ w)"
proof (induction s)
  case Nil
  then show ?case by auto
next
  case (Cons c cs)
  show ?case
  proof
    assume "contains (c # cs) pat"
    then consider "startswith (c # cs) pat" | "contains cs pat" by auto
    then show "\<exists>u w. c # cs = u @ pat @ w"
    proof cases
      case 1
      then obtain w where "c # cs = pat @ w" by (auto simp: startswith_iff)
      then have "c # cs = [] @ pat @ w" by simp
      then show ?thesis by blast
    next
      case 2
      then obtain u w where "cs = u @ pat @ w" using Cons.IH by auto
      then have "c # cs = (c # u) @ pat @ w" by simp
      then show ?thesis by blast
    qed
  next
    assume "\<exists>u w. c # cs = u @ pat @ w"
    then obtain u w where e: "c # cs = u @ pat @ w" by auto
    show "contains (c # cs) pat"
    proof (cases u)
      case Nil
      with e have "startswith (c # cs) pat" unfolding startswith_iff by auto
      then show ?thesis by simp
    next
      case (Cons a u')
      with e have "cs = u' @ pat @ w" by simp
      then show ?thesis using Cons.IH by auto
    qed
  qed
qed

lemma contains_lower_iff: "lower pat = pat \<Longrightarrow> contains (lower col) pat \<longleftrightarrow> ci_substring pat col"
  unfolding contains_iff ci_substring_def lower_def
  by (auto simp: map_eq_append_conv append_eq_map_conv) metis+

lemma is_code_col_iff: "is_code_col col \<longleftrightarrow> hs_like col"
proof -
  have "lower (py ''hs'') = py ''hs''" "lower (py ''hts'') = py ''hts''" "lower (py ''code'') = py ''code''"
    by (simp_all add: lower_def py_def lower_cp_def)
  then show ?thesis
    by (simp add: is_code_col_def hs_like_def contains_lower_iff Let_def)
qed

lemma find_code_col_None: "find_code_col cols = None \<longleftrightarrow> (\<forall>c\<in>set cols. \<not> is_code_col c)"
  by (induction cols) auto

lemma find_code_col_Some:
  "find_code_col cols = Some c \<Longrightarrow>
     \<exists>i<length cols. c = cols ! i \<and> is_code_col c \<and> (\<forall>j<i. \<not> is_code_col (cols ! j))"
proof (induction cols)
  case Nil
  then show ?case by simp
next
  case (Cons a cols)
  show ?case
  proof (cases "is_code_col a")
    case True
    with Cons.prems have "c = a" by simp
    with True show ?thesis by (intro exI[of _ 0]) simp
  next
    case False
    with Cons.prems have "find_code_col cols = Some c" by simp
    from Cons.IH[OF this] obtain i where i: "i < length cols" "c = cols ! i" "is_code_col c"
      "\<forall>j<i. \<not> is_code_col (cols ! j)" by auto
    have "\<forall>j<Suc i. \<not> is_code_col ((a # cols) ! j)"
      using False i(4) by (auto simp: nth_Cons split: nat.splits)
    with i show ?thesis by (intro exI[of _ "Suc i"]) simp
  qed
qed

subsection \<open>Cleaning\<close>

text \<open>
  After \<open>strip\<close> the text cannot end in a newline, so the pattern \<open>\.0$\<close> only matches a
  \<open>.0\<close> at the very end.
\<close>

lemma py_dot0: "py ''.0'' = [46, 48]"
  by (simp add: py_def)

lemma sub_dot0_rev_no_newline:
  "c0 \<noteq> 10 \<Longrightarrow> rev (sub_dot0_rev (c0 # r)) = removesuffix (rev (c0 # r)) (py ''.0'')"
proof (cases r)
  case Nil
  then show ?thesis by (simp add: removesuffix_def endswith_def py_dot0)
next
  case (Cons c1 r1)
  assume n: "c0 \<noteq> 10"
  show ?thesis
  proof (cases r1)
    case Nil
    with Cons show ?thesis by (auto simp: removesuffix_def endswith_def py_dot0)
  next
    case (Cons c2 r2)
    with \<open>r = c1 # r1\<close> n show ?thesis
      by (auto simp: removesuffix_def endswith_def py_dot0)
  qed
qed

lemma strip_last: "strip s \<noteq> [] \<Longrightarrow> \<not> isspace (last (strip s))"
proof -
  let ?r = "dropWhile isspace (rev (dropWhile isspace s))"
  assume "strip s \<noteq> []"
  then have ne: "?r \<noteq> []" by (simp add: strip_def)
  then have "\<not> isspace (hd ?r)" by (rule hd_dropWhile)
  moreover have "last (strip s) = hd ?r" using ne by (simp add: strip_def last_rev)
  ultimately show ?thesis by simp
qed

lemma sub_dot0_strip: "sub_dot0 (strip s) = removesuffix (strip s) (py ''.0'')"
proof (cases "rev (strip s)")
  case Nil
  then show ?thesis by (simp add: sub_dot0_def removesuffix_def endswith_def py_dot0)
next
  case (Cons c0 r)
  then have ne: "strip s \<noteq> []" by auto
  have "last (strip s) = hd (rev (strip s))" using ne by (simp add: hd_rev)
  then have "last (strip s) = c0" using Cons by simp
  with strip_last[OF ne] have "c0 \<noteq> 10" by (auto simp: isspace_def)
  from sub_dot0_rev_no_newline[OF this, of r] Cons show ?thesis
    by (simp add: sub_dot0_def)
qed

lemma clean_code_spec: "clean_code cell = normalize_spec cell"
  by (simp add: clean_code_def normalize_spec_def sub_non_digits_def sub_dot0_strip)

lemma slice_to_6: "slice_to c DIGITS = (if 6 \<le> length c then take 6 c else c)"
  by (simp add: slice_to_def DIGITS_def)

text \<open>
  Claim C7.  When the Normalizer returns, its rows are, in the order of the input: for every
  cell of the selected column, the cell trimmed, with one trailing literal \<open>.0\<close> stripped
  and every non-digit removed; the row is kept exactly when that digit string has at least
  4 characters; and the prefix of a kept row is the first 6 characters of its code when the
  code has at least 6, the whole code otherwise.
\<close>

theorem normalizer_rows:
  assumes "process_tree_data df market_name DIGITS = Inr (rows, code_col, n)"
  shows "\<exists>cells. map_of df code_col = Some cells \<and> n = length rows \<and>
           rows = map (\<lambda>c. \<lparr>hs_code = c, prefix = (if 6 \<le> length c then take 6 c else c),
                             market = market_name\<rparr>)
                    (filter (\<lambda>c. 4 \<le> length c) (map normalize_spec cells))"
proof -
  have cc: "clean_code = normalize_spec" by (rule ext) (rule clean_code_spec)
  from assms show ?thesis
    by (auto simp: process_tree_data_def Let_def slice_to_6 cc split: sum.splits option.splits)
qed

theorem normalizer_rows_witness:
  "process_tree_data [(py ''Name'', [py ''a'', py ''b'', py ''c'']),
                      (py ''HTS'', [py '' 0101.21.00 '', py ''12.0'', py ''10000110.0''])]
       (py ''UAE'') DIGITS
     = Inr ([\<lparr>hs_code = py ''01012100'', prefix = py ''010121'', market = py ''UAE''\<rparr>,
             \<lparr>hs_code = py ''10000110'', prefix = py ''100001'', market = py ''UAE''\<rparr>],
            py ''HTS'', 2)
   \<and> (\<exists>cells. map_of [(py ''Name'', [py ''a'', py ''b'', py ''c'']),
                      (py ''HTS'', [py '' 0101.21.00 '', py ''12.0'', py ''10000110.0''])] (py ''HTS'') = Some cells
        \<and> (2::nat) = length [\<lparr>hs_code = py ''01012100'', prefix = py ''010121'', market = py ''UAE''\<rparr>,
             \<lparr>hs_code = py ''10000110'', prefix = py ''100001'', market = py ''UAE''\<rparr>])"
proof -
  have h: "process_tree_data [(py ''Name'', [py ''a'', py ''b'', py ''c'']),
                      (py ''HTS'', [py '' 0101.21.00 '', py ''12.0'', py ''10000110.0''])]
       (py ''UAE'') DIGITS
     = Inr ([\<lparr>hs_code = py ''01012100'', prefix = py ''010121'', market = py ''UAE''\<rparr>,
             \<lparr>hs_code = py ''10000110'', prefix = py ''100001'', market = py ''UAE''\<rparr>],
            py ''HTS'', 2)"
    by (simp add: process_tree_data_def select_code_col_def is_code_col_def lower_def
        lower_cp_def py_def clean_code_def sub_non_digits_def sub_dot0_def strip_def
        isspace_def is_digit_def slice_to_def DIGITS_def)
  from normalizer_rows[OF h] h show ?thesis by blast
qed

text \<open>
  Claim C9, as amended.  For every input table with at least one column, the Normalizer
  returns without an error, and the column it used is the first one whose name contains
  \<open>hs\<close>, \<open>hts\<close> or \<open>code\<close> up to case, or the first column when no name does.
\<close>

theorem code_column_selection:
  assumes "df \<noteq> []"
  shows "\<exists>i rows. i < length df \<and>
           process_tree_data df market_name digits = Inr (rows, fst (df ! i), length rows) \<and>
           (if \<exists>c\<in>set (map fst df). hs_like c
            then hs_like (fst (df ! i)) \<and> (\<forall>j<i. \<not> hs_like (fst (df ! j)))
            else i = 0)"
proof (cases "find_code_col (map fst df)")
  case None
  then have no: "\<forall>c\<in>set (map fst df). \<not> hs_like c"
    by (simp add: find_code_col_None is_code_col_iff)
  from assms obtain l cells rest where df: "df = (l, cells) # rest" by (cases df) auto
  have "process_tree_data df market_name digits
          = Inr (map (\<lambda>c. \<lparr>hs_code = c, prefix = slice_to c digits, market = market_name\<rparr>)
                   (filter (\<lambda>c. 4 \<le> length c) (map clean_code cells)), l,
                 length (filter (\<lambda>c. 4 \<le> length c) (map clean_code cells)))"
    using None df by (simp add: process_tree_data_def select_code_col_def Let_def)
  with no df show ?thesis
    by (intro exI[of _ 0]) (auto simp del: set_map)
next
  case (Some c)
  from find_code_col_Some[OF this] obtain i where i: "i < length df" "c = fst (df ! i)"
    "is_code_col c" "\<forall>j<i. \<not> is_code_col (map fst df ! j)" by auto
  have "c \<in> fst ` set df" using i(1,2) by (metis image_eqI nth_mem)
  then obtain cells where cells: "map_of df c = Some cells"
    by (metis domD dom_map_of_conv_image_fst)
  have j: "\<forall>j<i. \<not> hs_like (fst (df ! j))"
    using i(1,4) by (auto simp: is_code_col_iff)
  have ex: "\<exists>c\<in>set (map fst df). hs_like c"
    using i(1,2,3) by (auto simp: is_code_col_iff intro!: bexI[of _ "df ! i"])
  have "process_tree_data df market_name digits
          = Inr (map (\<lambda>c. \<lparr>hs_code = c, prefix = slice_to c digits, market = market_name\<rparr>)
                   (filter (\<lambda>c. 4 \<le> length c) (map clean_code cells)), c,
                 length (filter (\<lambda>c. 4 \<le> length c) (map clean_code cells)))"
    using Some cells by (simp add: process_tree_data_def select_code_col_def Let_def)
  with i(1,2,3) j ex show ?thesis
    unfolding is_code_col_iff by (intro exI[of _ i]) (simp del: set_map)
qed

theorem code_column_selection_witness:
  "[(py ''Name'', [py ''a'']), (py ''Tariff'', [py ''01012100''])] \<noteq> []
   \<and> (\<exists>i rows. i < length [(py ''Name'', [py ''a'']), (py ''Tariff'', [py ''01012100''])] \<and>
        process_tree_data [(py ''Name'', [py ''a'']), (py ''Tariff'', [py ''01012100''])] (py ''UAE'') DIGITS
          = Inr (rows, fst ([(py ''Name'', [py ''a'']), (py ''Tariff'', [py ''01012100''])] ! i), length rows))"
  using code_column_selection [of "[(py ''Name'', [py ''a'']), (py ''Tariff'', [py ''01012100''])]" "py ''UAE''" DIGITS]
  by blast

text \<open>
  On a table without columns no name matches and there is no first column:
  \<open>df.columns[0]\<close> raises \<open>IndexError\<close>.
\<close>

theorem no_columns_counterexample:
  "process_tree_data [] (py ''UAE'') DIGITS = Inl IndexError"
  by (simp add: process_tree_data_def select_code_col_def)


section \<open>Properties of the Prefix Index Builder\<close>

text \<open>
  The index has one entry per distinct prefix of the table, in ascending order, and the entry
  of a prefix holds, for every market of the list, that market's distinct codes at the prefix.
\<close>

lemma unique_acc_set: "set (unique_acc seen xs) = set seen \<union> set xs"
  by (induction seen xs rule: unique_acc.induct) auto

lemma unique_acc_distinct: "distinct seen \<Longrightarrow> distinct (unique_acc seen xs)"
  by (induction seen xs rule: unique_acc.induct) auto

lemma set_unique: "set (unique xs) = set xs"
  by (simp add: unique_def unique_acc_set)

lemma distinct_unique: "distinct (unique xs)"
  by (simp add: unique_def unique_acc_distinct)

lemma length_unique: "length (unique xs) = card (set xs)"
  using distinct_card[OF distinct_unique, of xs] by (simp add: set_unique)

lemma map_of_build_markets:
  "map_of (build_markets grp ms d) m =
     (if m \<in> set ms then Some (unique (map hs_code (filter (\<lambda>r. market r = m) grp)))
      else map_of d m)"
  by (induction ms arbitrary: d) (auto simp: Let_def map_of_dict_set)

lemma build_groups_fresh:
  "distinct ps \<Longrightarrow> fst ` set lookup \<inter> set ps = {} \<Longrightarrow>
     build_groups df ms ps lookup
       = lookup @ map (\<lambda>p. (p, build_markets (filter (\<lambda>r. prefix r = p) df) ms [])) ps"
proof (induction ps arbitrary: lookup)
  case Nil
  then show ?case by simp
next
  case (Cons p ps)
  let ?e = "(p, build_markets (filter (\<lambda>r. prefix r = p) df) ms [])"
  from Cons.prems have new: "p \<notin> fst ` set lookup" by auto
  have d: "distinct ps" using Cons.prems by simp
  have "fst ` set (lookup @ [?e]) \<inter> set ps = {}" using Cons.prems by auto
  from Cons.IH[OF d this] show ?case
    by (simp add: Let_def dict_set_new[OF new])
qed

lemma build_prefix_lookup_body_eq:
  "build_prefix_lookup_body df ms
     = map (\<lambda>p. (p, build_markets (filter (\<lambda>r. prefix r = p) df) ms []))
         (sort (unique (map prefix df)))"
  unfolding build_prefix_lookup_body_def
  by (subst build_groups_fresh) (simp_all add: distinct_unique)

lemma keys_build_prefix_lookup_body: "map fst (build_prefix_lookup_body df ms) = sort (unique (map prefix df))"
  by (simp add: build_prefix_lookup_body_eq comp_def)

lemma distinct_build_prefix_lookup_body: "distinct (map fst (build_prefix_lookup_body df ms))"
  by (simp add: keys_build_prefix_lookup_body distinct_unique)

lemma set_keys_build_prefix_lookup_body: "fst ` set (build_prefix_lookup_body df ms) = prefix ` set df"
proof -
  have "fst ` set (build_prefix_lookup_body df ms) = set (map fst (build_prefix_lookup_body df ms))" by simp
  also have "\<dots> = prefix ` set df" by (simp only: keys_build_prefix_lookup_body set_sort set_unique set_map)
  finally show ?thesis .
qed

lemma build_prefix_lookup_body_entry:
  assumes "(p, mc) \<in> set (build_prefix_lookup_body df ms)" and "m \<in> set ms"
  shows "length (dict_get mc m []) = code_count df m p"
proof -
  from assms(1) have mc: "mc = build_markets (filter (\<lambda>r. prefix r = p) df) ms []"
    by (auto simp: build_prefix_lookup_body_eq)
  have "dict_get mc m [] = unique (map hs_code (filter (\<lambda>r. market r = m) (filter (\<lambda>r. prefix r = p) df)))"
    using assms(2) by (simp add: dict_get_def mc map_of_build_markets)
  moreover have "set (map hs_code (filter (\<lambda>r. market r = m) (filter (\<lambda>r. prefix r = p) df)))
         = hs_code ` {r \<in> set df. market r = m \<and> prefix r = p}" by auto
  ultimately show ?thesis by (simp only: length_unique code_count_def)
qed

lemma code_count_code:
  "code_count df m p = length (remdups (map hs_code (filter (\<lambda>r. market r = m \<and> prefix r = p) df)))"
proof -
  have "hs_code ` {r \<in> set df. market r = m \<and> prefix r = p}
          = set (map hs_code (filter (\<lambda>r. market r = m \<and> prefix r = p) df))" by auto
  then show ?thesis by (simp only: code_count_def length_remdups_card_conv)
qed

lemma dict_get_build_prefix_lookup_body:
  assumes "p \<in> prefix ` set df" and "m \<in> set ms"
  shows "length (dict_get (dict_get (build_prefix_lookup_body df ms) p []) m []) = code_count df m p"
proof -
  let ?idx = "build_prefix_lookup_body df ms"
  from assms(1) have "p \<in> fst ` set ?idx" by (simp only: set_keys_build_prefix_lookup_body)
  then obtain mc where mc: "(p, mc) \<in> set ?idx" by auto
  have "dict_get ?idx p [] = mc"
    by (rule dict_get_member[OF distinct_build_prefix_lookup_body mc])
  then show ?thesis by (simp only: build_prefix_lookup_body_entry[OF mc assms(2)])
qed

text \<open>
  The decorated function: what it returns when the key is stored and when it is not.
\<close>

lemma build_prefix_lookup_miss:
  "map_of cache markets = None \<Longrightarrow>
     build_prefix_lookup cache df markets
       = (build_prefix_lookup_body df markets,
          dict_set cache markets (build_prefix_lookup_body df markets))"
  by (simp add: build_prefix_lookup_def Let_def)

lemma build_prefix_lookup_hit:
  "map_of cache markets = Some lookup \<Longrightarrow>
     build_prefix_lookup cache df markets = (lookup, cache)"
  by (simp add: build_prefix_lookup_def)

lemma build_prefix_lookup_cold:
  "fst (build_prefix_lookup [] df markets) = build_prefix_lookup_body df markets"
  by (simp add: build_prefix_lookup_def Let_def)


section \<open>Properties of the Pairwise Relation Classifier\<close>

subsection \<open>The loop over the prefixes\<close>

text \<open>
  On entries that are dicts the loop returns one row per entry and counts the relations;
  on an entry that is a tuple it raises at the first \<open>get\<close>.
\<close>

lemma entry_get_Dict: "entry_get (Dict d) m = Inr (dict_get d m [])"
  by (simp add: entry_get_def)

lemma entry_get_Tuple: "entry_get (Tuple t) m = Inl AttributeError"
  by (simp add: entry_get_def)

lemma fst_classify: "fst (classify cA cB ps) = relation_spec cA cB"
  by (simp add: classify_def relation_spec_def)

lemma snd_classify:
  "snd (classify (length (dict_get mc A [])) (length (dict_get mc B [])) ps) = tally A B [(p, mc)] ps"
  by (simp add: classify_def tally_def rel_at_def relation_spec_def)

lemma tally_Nil: "tally A B [] ps = ps"
  by (simp add: tally_def)

lemma tally_Cons: "tally A B (it # items) ps = tally A B items (tally A B [it] ps)"
  by (simp add: tally_def)

lemma classify_prefixes_dict:
  "classify_prefixes (dict_entries items) A B (rows, ps)
     = Inr (rows @ map (row_at A B) items, tally A B items ps)"
proof (induction items arbitrary: rows ps)
  case Nil
  then show ?case by (simp add: dict_entries_def tally_Nil)
next
  case (Cons it items)
  obtain p mc where it: "it = (p, mc)" by (cases it)
  have step: "classify_prefixes (dict_entries (it # items)) A B (rows, ps)
      = classify_prefixes (dict_entries items) A B
          (rows @ [row_at A B it], tally A B [it] ps)"
    unfolding it
    by (simp add: dict_entries_def entry_get_Dict Let_def split_beta fst_classify
          snd_classify[of mc A B ps p] row_at_def rel_at_def)
  show ?case
    unfolding step Cons.IH by (simp add: tally_Cons[of A B it items])
qed

lemma classify_prefixes_tuple:
  "classify_prefixes ((p, Tuple t) # items) A B st = Inl AttributeError"
  by (cases st) (simp add: entry_get_Tuple)

subsection \<open>The loop over the pairs, the body and the cache\<close>

lemma analyze_pairs_dict:
  "analyze_pairs pairs (dict_entries L) acc = Inr (foldl (report_step L) acc pairs)"
proof (induction pairs arbitrary: acc)
  case Nil
  then show ?case by simp
next
  case (Cons pr pairs)
  obtain A B where pr: "pr = (A, B)" by (cases pr)
  obtain res st where acc: "acc = (res, st)" by (cases acc)
  show ?case unfolding pr acc
    by (simp add: classify_prefixes_dict Cons.IH report_step_def)
qed

lemma analyze_pairs_tuple:
  "analyze_pairs (pr # pairs) ((p, Tuple t) # items) acc = Inl AttributeError"
  by (cases pr; cases acc) (simp add: entry_get_Tuple)

lemma foldl_report_stats:
  "map_of (snd (foldl (report_step L) acc pairs)) (A, B)
     = (if (A, B) \<in> set pairs then Some (summarize (tally A B L pair_stats0))
        else map_of (snd acc) (A, B))"
proof (induction pairs arbitrary: acc)
  case Nil
  then show ?case by simp
next
  case (Cons pr pairs)
  show ?case unfolding foldl_Cons Cons.IH
    by (cases pr) (auto simp: report_step_def map_of_dict_set)
qed

lemma foldl_report_rows:
  "map_of (fst (foldl (report_step L) acc pairs)) (A, B)
     = (if (A, B) \<in> set pairs then Some (map (row_at A B) L)
        else map_of (fst acc) (A, B))"
proof (induction pairs arbitrary: acc)
  case Nil
  then show ?case by simp
next
  case (Cons pr pairs)
  show ?case unfolding foldl_Cons Cons.IH
    by (cases pr) (auto simp: report_step_def map_of_dict_set)
qed

lemma report_stats:
  "(A, B) \<in> set (combinations2 markets) \<Longrightarrow>
     map_of (snd (report_of L markets)) (A, B) = Some (summarize (tally A B L pair_stats0))"
  by (simp add: report_of_def foldl_report_stats)

lemma report_rows:
  "(A, B) \<in> set (combinations2 markets) \<Longrightarrow>
     map_of (fst (report_of L markets)) (A, B) = Some (map (row_at A B) L)"
  by (simp add: report_of_def foldl_report_rows)

lemma dict_zip_dict_entries:
  assumes "distinct (map fst L)"
  shows "dict_zip (map fst L) (map (\<lambda>(p, mc). Dict mc) L) = dict_entries L"
proof -
  have 1: "map fst (dict_entries L) = map fst L" by (simp add: dict_entries_def split_beta comp_def)
  have 2: "map snd (dict_entries L) = map (\<lambda>(p, mc). Dict mc) L"
    by (simp add: dict_entries_def split_beta comp_def)
  have "distinct (map fst (dict_entries L))" using assms by (simp only: 1)
  from dict_zip_items[OF this] show ?thesis by (simp only: 1 2)
qed

lemma dict_zip_page_values:
  assumes "distinct (map fst L)"
  shows "dict_zip (lookup_keys_of L) (lookup_values_of L) = map (\<lambda>(p, val). (p, Tuple val)) L"
proof -
  let ?T = "map (\<lambda>(p, val). (p, Tuple val)) L"
  have 1: "map fst ?T = map fst L" by (simp add: split_beta comp_def)
  have 2: "map snd ?T = map (\<lambda>(p, val). Tuple val) L" by (simp add: split_beta comp_def)
  have "distinct (map fst ?T)" using assms by (simp only: 1)
  from dict_zip_items[OF this] show ?thesis
    by (simp only: 1 2 lookup_keys_of_def lookup_values_of_def)
qed

lemma analyze_pairs_body_dict:
  "distinct (map fst L) \<Longrightarrow>
     analyze_pairs_body (map fst L) (map (\<lambda>(p, mc). Dict mc) L) markets = Inr (report_of L markets)"
  by (simp add: analyze_pairs_body_def dict_zip_dict_entries analyze_pairs_dict report_of_def)

lemma analyze_pairs_body_page:
  assumes "distinct (map fst L)" and "L \<noteq> []" and "combinations2 markets \<noteq> []"
  shows "analyze_pairs_body (lookup_keys_of L) (lookup_values_of L) markets = Inl AttributeError"
proof -
  from assms(2) obtain p val items where L: "L = (p, val) # items"
    by (cases L) auto
  from assms(3) obtain pr pairs where c: "combinations2 markets = pr # pairs"
    by (cases "combinations2 markets") auto
  show ?thesis
    unfolding analyze_pairs_body_def Let_def dict_zip_page_values[OF assms(1)] c
    unfolding L by (simp add: analyze_pairs_tuple)
qed

lemma analyze_pairs_cached_hit:
  "map_of cache markets = Some stored \<Longrightarrow>
     analyze_pairs_cached cache lookup_keys lookup_values markets = (Inr stored, cache)"
  by (simp add: analyze_pairs_cached_def)

lemma analyze_pairs_cached_miss:
  "map_of cache markets = None \<Longrightarrow>
     analyze_pairs_cached cache lookup_keys lookup_values markets
       = (case analyze_pairs_body lookup_keys lookup_values markets of
            Inl e \<Rightarrow> (Inl e, cache)
          | Inr result \<Rightarrow> (Inr result, dict_set cache markets result))"
  by (simp add: analyze_pairs_cached_def)

subsection \<open>Rows and counters on dict entries\<close>

lemma combinations2_subset: "(A, B) \<in> set (combinations2 ms) \<Longrightarrow> A \<in> set ms \<and> B \<in> set ms"
  by (induction ms) auto

lemma combinations2_distinct: "distinct ms \<Longrightarrow> (A, B) \<in> set (combinations2 ms) \<Longrightarrow> A \<noteq> B"
  by (induction ms) (auto dest: combinations2_subset)

lemma relation_spec_cases:
  "cA = 0 \<or> cB = 0 \<Longrightarrow> relation_spec cA cB = NoMatch"
  "cA = 1 \<Longrightarrow> cB = 1 \<Longrightarrow> relation_spec cA cB = OneToOne"
  "cA = 1 \<Longrightarrow> cB > 1 \<Longrightarrow> relation_spec cA cB = OneToMany"
  "cA > 1 \<Longrightarrow> cB = 1 \<Longrightarrow> relation_spec cA cB = ManyToOne"
  "cA > 1 \<Longrightarrow> cB > 1 \<Longrightarrow> relation_spec cA cB = ManyToMany"
  by (simp_all add: relation_spec_def)

lemma counts_cases:
  fixes cA cB :: nat
  obtains "cA = 0 \<or> cB = 0" | "cA = 1" "cB = 1" | "cA = 1" "cB > 1" | "cA > 1" "cB = 1"
    | "cA > 1" "cB > 1"
  by linarith

lemma relation_spec_swap:
  "relation_spec cB cA =
     (case relation_spec cA cB of OneToMany \<Rightarrow> ManyToOne | ManyToOne \<Rightarrow> OneToMany | r \<Rightarrow> r)"
proof (cases cA cB rule: counts_cases)
  case 1
  then have "cB = 0 \<or> cA = 0" by auto
  with 1 show ?thesis by (simp only: relation_spec_cases relation.case)
next
  case 2
  then show ?thesis by (simp only: relation_spec_cases relation.case)
next
  case 3
  then show ?thesis by (simp only: relation_spec_cases relation.case)
next
  case 4
  then show ?thesis by (simp only: relation_spec_cases relation.case)
next
  case 5
  then show ?thesis by (simp only: relation_spec_cases relation.case)
qed

lemma map_of_set_codes: "\<forall>i. k \<noteq> Code m i \<Longrightarrow> map_of (set_codes r m xs) k = map_of r k"
proof (induction xs arbitrary: r)
  case Nil
  then show ?case by simp
next
  case (Cons x xs)
  obtain i c where x: "x = (i, c)" by (cases x)
  from Cons.prems have "k \<noteq> Code m i" by simp
  with Cons show ?case unfolding x by (simp add: map_of_dict_set)
qed

lemma pair_row_prefix: "map_of (pair_row p rel A codes_A B codes_B) HS_Prefix = Some (Text p)"
  by (simp add: pair_row_def Let_def map_of_set_codes map_of_dict_set)

lemma pair_row_relation: "map_of (pair_row p rel A codes_A B codes_B) Relation = Some (Rel rel)"
  by (simp add: pair_row_def Let_def map_of_set_codes map_of_dict_set)

lemma filter_distinct_key:
  "distinct (map fst items) \<Longrightarrow> (p, v) \<in> set items \<Longrightarrow> filter (\<lambda>it. fst it = p) items = [(p, v)]"
proof (induction items)
  case Nil
  then show ?case by simp
next
  case (Cons it items)
  show ?case
  proof (cases "it = (p, v)")
    case True
    with Cons.prems have "p \<notin> fst ` set items" by auto
    then have "filter (\<lambda>it. fst it = p) items = []" by (auto simp: filter_empty_conv)
    with True show ?thesis by simp
  next
    case False
    with Cons.prems have in': "(p, v) \<in> set items" by auto
    with Cons.prems have "fst it \<noteq> p" by (auto simp: image_iff) 
    with Cons in' show ?thesis by simp
  qed
qed

lemma swapped_relation_eq:
  "(case r of OneToMany \<Rightarrow> ManyToOne | ManyToOne \<Rightarrow> OneToMany | r \<Rightarrow> r) = OneToOne \<longleftrightarrow> r = OneToOne"
  "(case r of OneToMany \<Rightarrow> ManyToOne | ManyToOne \<Rightarrow> OneToMany | r \<Rightarrow> r) = ManyToMany \<longleftrightarrow> r = ManyToMany"
  "(case r of OneToMany \<Rightarrow> ManyToOne | ManyToOne \<Rightarrow> OneToMany | r \<Rightarrow> r) = NoMatch \<longleftrightarrow> r = NoMatch"
  "(case r of OneToMany \<Rightarrow> ManyToOne | ManyToOne \<Rightarrow> OneToMany | r \<Rightarrow> r) = OneToMany \<longleftrightarrow> r = ManyToOne"
  "(case r of OneToMany \<Rightarrow> ManyToOne | ManyToOne \<Rightarrow> OneToMany | r \<Rightarrow> r) = ManyToOne \<longleftrightarrow> r = OneToMany"
  by (cases r; simp)+

lemma codes_at_code:
  "codes_at df m p = set (map hs_code (filter (\<lambda>r. market r = m \<and> prefix r = p) df))"
  by (auto simp: codes_at_def)

lemma code_count_codes_at: "code_count df m p = card (codes_at df m p)"
  by (simp add: code_count_def codes_at_def)

lemma single_code: "length xs = 1 \<Longrightarrow> set xs = {xs ! 0}"
  by (cases xs) auto

lemma map_of_fill_row_code:
  "map_of (fill_row r ms cf) (Code_of m)
     = (if m \<in> set ms then Some (Text (dict_get cf m [])) else map_of r (Code_of m))"
  by (induction ms arbitrary: r) (auto simp: map_of_dict_set)

lemma map_of_fill_row_prefix: "map_of (fill_row r ms cf) HS_Prefix = map_of r HS_Prefix"
  by (induction ms arbitrary: r) (auto simp: map_of_dict_set)

lemma build_prefix_lookup_body_codes:
  assumes "(p, mc) \<in> set (build_prefix_lookup_body df ms)" and "m \<in> set ms"
  shows "set (dict_get mc m []) = codes_at df m p" and "distinct (dict_get mc m [])"
proof -
  from assms(1) have mc: "mc = build_markets (filter (\<lambda>r. prefix r = p) df) ms []"
    by (auto simp: build_prefix_lookup_body_eq)
  have e: "dict_get mc m [] = unique (map hs_code (filter (\<lambda>r. market r = m) (filter (\<lambda>r. prefix r = p) df)))"
    using assms(2) by (simp add: dict_get_def mc map_of_build_markets)
  show "set (dict_get mc m []) = codes_at df m p"
    unfolding e codes_at_def by (auto simp: set_unique)
  show "distinct (dict_get mc m [])" unfolding e by (rule distinct_unique)
qed


lemma row_at_prefix: "map_of (row_at A B (p, mc)) HS_Prefix = Some (Text p)"
  by (simp add: row_at_def pair_row_prefix)

lemma row_at_relation: "map_of (row_at A B (p, mc)) Relation = Some (Rel (rel_at A B mc))"
  by (simp add: row_at_def pair_row_relation)

lemma rows_for_prefix:
  assumes "distinct (map fst L)" and "(p, mc) \<in> set L"
  shows "filter (\<lambda>r. map_of r HS_Prefix = Some (Text p)) (map (row_at A B) L)
         = [row_at A B (p, mc)]"
proof -
  have key: "(\<lambda>r. map_of r HS_Prefix = Some (Text p)) \<circ> row_at A B = (\<lambda>it. fst it = p)"
    by (auto simp: fun_eq_iff row_at_prefix)
  have "filter (\<lambda>r. map_of r HS_Prefix = Some (Text p)) (map (row_at A B) L)
          = map (row_at A B) (filter (\<lambda>it. fst it = p) L)"
    by (simp only: filter_map key)
  also have "\<dots> = [row_at A B (p, mc)]" by (simp only: filter_distinct_key[OF assms] list.map)
  finally show ?thesis .
qed

lemma tally_fields:
  "one_to_one (tally A B L ps) = one_to_one ps + length (filter (\<lambda>it. rel_at A B (snd it) = OneToOne) L)"
  "one_to_many (tally A B L ps) = one_to_many ps + length (filter (\<lambda>it. rel_at A B (snd it) = OneToMany) L)"
  "many_to_one (tally A B L ps) = many_to_one ps + length (filter (\<lambda>it. rel_at A B (snd it) = ManyToOne) L)"
  "many_to_many (tally A B L ps) = many_to_many ps + length (filter (\<lambda>it. rel_at A B (snd it) = ManyToMany) L)"
  "no_match (tally A B L ps) = no_match ps + length (filter (\<lambda>it. rel_at A B (snd it) = NoMatch) L)"
  by (simp_all add: tally_def)

lemma count_relations_total:
  "length (filter (\<lambda>it. rel_at A B (snd it) = OneToOne) L)
   + length (filter (\<lambda>it. rel_at A B (snd it) = OneToMany) L)
   + length (filter (\<lambda>it. rel_at A B (snd it) = ManyToOne) L)
   + length (filter (\<lambda>it. rel_at A B (snd it) = ManyToMany) L)
   + length (filter (\<lambda>it. rel_at A B (snd it) = NoMatch) L) = length L"
proof (induction L)
  case Nil
  then show ?case by simp
next
  case (Cons it L)
  show ?case using Cons.IH
    by (cases "rel_at A B (snd it)") simp_all
qed

lemma pair_stats0_fields:
  "one_to_one pair_stats0 = 0" "one_to_many pair_stats0 = 0" "many_to_one pair_stats0 = 0"
  "many_to_many pair_stats0 = 0" "no_match pair_stats0 = 0"
  by (simp_all add: pair_stats0_def)

lemma summarize_fields:
  "one_to_one (summarize ps) = one_to_one ps" "one_to_many (summarize ps) = one_to_many ps"
  "many_to_one (summarize ps) = many_to_one ps" "many_to_many (summarize ps) = many_to_many ps"
  "no_match (summarize ps) = no_match ps"
  "total_shared (summarize ps) = one_to_one ps + one_to_many ps + many_to_one ps + many_to_many ps"
  by (simp_all add: summarize_def Let_def)

lemma tally_total:
  "one_to_one (tally A B L pair_stats0) + one_to_many (tally A B L pair_stats0)
   + many_to_one (tally A B L pair_stats0) + many_to_many (tally A B L pair_stats0)
   + no_match (tally A B L pair_stats0) = length L"
  by (simp only: tally_fields pair_stats0_fields add_0 count_relations_total)

lemma rel_at_swapped:
  "rel_at B A mc = (case rel_at A B mc of OneToMany \<Rightarrow> ManyToOne | ManyToOne \<Rightarrow> OneToMany | r \<Rightarrow> r)"
  unfolding rel_at_def by (rule relation_spec_swap)

lemma tally_swapped:
  "one_to_one (tally B A L pair_stats0) = one_to_one (tally A B L pair_stats0)"
  "many_to_many (tally B A L pair_stats0) = many_to_many (tally A B L pair_stats0)"
  "no_match (tally B A L pair_stats0) = no_match (tally A B L pair_stats0)"
  "one_to_many (tally B A L pair_stats0) = many_to_one (tally A B L pair_stats0)"
  "many_to_one (tally B A L pair_stats0) = one_to_many (tally A B L pair_stats0)"
  by (simp_all only: tally_fields rel_at_swapped[of B A] swapped_relation_eq pair_stats0_fields)

subsection \<open>The float of line 113\<close>

text \<open>
  \<open>ilog2\<close> is the binary exponent; rounding keeps a value between 0 and an integer bound
  below \<open>2 ^ 52\<close> within these bounds, so the percentage lies between 0 and 100.
\<close>

lemma round_half_even_nonneg: "0 \<le> q \<Longrightarrow> 0 \<le> round_half_even q"
proof -
  assume "0 \<le> q"
  then have "0 \<le> \<lfloor>q\<rfloor>" by simp
  then show ?thesis by (simp add: round_half_even_def Let_def)
qed

lemma round_half_even_le:
  assumes "q \<le> of_int N"
  shows "round_half_even q \<le> N"
proof (cases "q = of_int N")
  case True
  then show ?thesis by (simp add: round_half_even_def Let_def)
next
  case False
  with assms have "q < of_int N" by simp
  then have "\<lfloor>q\<rfloor> < N" by (simp add: floor_less_iff)
  then have "\<lfloor>q\<rfloor> + 1 \<le> N" by simp
  then show ?thesis by (simp add: round_half_even_def Let_def)
qed

lemma ilog2_bounds:
  assumes "0 < x"
  shows "2 powi ilog2 x \<le> x" and "x < 2 powi (ilog2 x + 1)"
proof -
  obtain a b where q: "quotient_of x = (a, b)" by (cases "quotient_of x")
  then have b: "0 < b" by (rule quotient_of_denom_pos)
  have x: "x = of_int a / of_int b" using q by (rule quotient_of_div)
  with assms b have a: "0 < a" by (simp add: zero_less_divide_iff)
  define la where "la = bitlen a"
  define lb where "lb = bitlen b"
  have la: "2 ^ nat (la - 1) \<le> a" "a < 2 ^ nat la" using bitlen_bounds[OF a] by (simp_all add: la_def)
  have lb: "2 ^ nat (lb - 1) \<le> b" "b < 2 ^ nat lb" using bitlen_bounds[OF b] by (simp_all add: lb_def)
  have la1: "1 \<le> la" using a by (simp add: la_def bitlen_def floorlog_def)
  have lb1: "1 \<le> lb" using b by (simp add: lb_def bitlen_def floorlog_def)
  have ra: "(2::rat) powi (la - 1) \<le> of_int a" "of_int a < (2::rat) powi la"
  proof -
    have "(2::rat) powi (la - 1) = of_int (2 ^ nat (la - 1))" using la1 by (simp add: power_int_def)
    also have "\<dots> \<le> of_int a" using la(1) by (simp only: of_int_le_iff)
    finally show "(2::rat) powi (la - 1) \<le> of_int a" .
    have "(of_int a :: rat) < of_int (2 ^ nat la)" using la(2) by (simp only: of_int_less_iff)
    also have "\<dots> = 2 powi la" using la1 by (simp add: power_int_def)
    finally show "of_int a < (2::rat) powi la" .
  qed
  have rb: "(2::rat) powi (lb - 1) \<le> of_int b" "of_int b < (2::rat) powi lb"
  proof -
    have "(2::rat) powi (lb - 1) = of_int (2 ^ nat (lb - 1))" using lb1 by (simp add: power_int_def)
    also have "\<dots> \<le> of_int b" using lb(1) by (simp only: of_int_le_iff)
    finally show "(2::rat) powi (lb - 1) \<le> of_int b" .
    have "(of_int b :: rat) < of_int (2 ^ nat lb)" using lb(2) by (simp only: of_int_less_iff)
    also have "\<dots> = 2 powi lb" using lb1 by (simp add: power_int_def)
    finally show "of_int b < (2::rat) powi lb" .
  qed
  have bpos: "(0::rat) < of_int b" using b by simp
  have up: "x < 2 powi (la - lb + 1)"
  proof -
    have "of_int a < (2::rat) powi (la - lb + 1) * 2 powi (lb - 1)"
      using ra(2) by (simp add: power_int_add[symmetric])
    also have "\<dots> \<le> 2 powi (la - lb + 1) * of_int b"
      using rb(1) by (intro mult_left_mono) simp_all
    finally show ?thesis using bpos by (simp add: x pos_divide_less_eq)
  qed
  have lo: "2 powi (la - lb - 1) < x"
  proof -
    have "(2::rat) powi (la - lb - 1) * of_int b < 2 powi (la - lb - 1) * 2 powi lb"
      using rb(2) by (intro mult_strict_left_mono) simp_all
    also have "\<dots> = 2 powi (la - 1)" by (simp add: power_int_add[symmetric])
    also have "\<dots> \<le> of_int a" by (rule ra(1))
    finally show ?thesis using bpos by (simp add: x pos_less_divide_eq)
  qed
  have e: "ilog2 x = (if 2 powi (la - lb) \<le> x then la - lb else la - lb - 1)"
    by (simp add: ilog2_def q la_def lb_def Let_def)
  show "2 powi ilog2 x \<le> x" using lo by (simp add: e)
  show "x < 2 powi (ilog2 x + 1)" using up by (simp add: e)
qed

lemma ilog2_le:
  assumes "0 < x" and "x \<le> 2 powi k"
  shows "ilog2 x \<le> k"
proof -
  have le: "(2::rat) powi ilog2 x \<le> 2 powi k" using ilog2_bounds(1)[OF assms(1)] assms(2) by simp
  show ?thesis
  proof (rule ccontr)
    assume "\<not> ilog2 x \<le> k"
    then have "k < ilog2 x" by simp
    then have "(2::rat) powi k < 2 powi ilog2 x" by (rule power_int_strict_increasing) simp
    with le show False by simp
  qed
qed


lemma float_round_nonneg: "0 \<le> x \<Longrightarrow> 0 \<le> float_round x"
proof (cases "x = 0")
  case True
  then show ?thesis by (simp add: float_round_def)
next
  case False
  assume "0 \<le> x"
  define e where "e = max (ilog2 x - 52) (- 1074)"
  have "0 \<le> x / 2 powi e" using \<open>0 \<le> x\<close> by simp
  then have "0 \<le> round_half_even (x / 2 powi e)" by (rule round_half_even_nonneg)
  then have "(0::rat) \<le> of_int (round_half_even (x / 2 powi e)) * 2 powi e" by simp
  then show ?thesis using False by (simp add: float_round_def Let_def e_def)
qed

lemma float_round_le:
  assumes "0 \<le> x" and "x \<le> of_int N" and "of_int N \<le> (2::rat) powi 52"
  shows "float_round x \<le> of_int N"
proof (cases "x = 0")
  case True
  with assms show ?thesis by (simp add: float_round_def)
next
  case False
  with assms(1) have pos: "0 < x" by simp
  define e where "e = max (ilog2 x - 52) (- 1074)"
  have "x \<le> 2 powi 52" using assms(2,3) by simp
  then have "ilog2 x \<le> 52" by (rule ilog2_le[OF pos])
  then have e0: "e \<le> 0" by (simp add: e_def)
  define k where "k = nat (- e)"
  have p: "(2::rat) powi e = 1 / 2 ^ k" using e0 by (simp add: power_int_def k_def field_simps)
  have "x / 2 powi e = x * 2 ^ k" by (simp add: p)
  also have "\<dots> \<le> of_int N * 2 ^ k" using assms(2) by (intro mult_right_mono) simp_all
  also have "\<dots> = of_int (N * 2 ^ k)" by simp
  finally have "round_half_even (x / 2 powi e) \<le> N * 2 ^ k" by (rule round_half_even_le)
  then have "(of_int (round_half_even (x / 2 powi e)) :: rat) \<le> of_int (N * 2 ^ k)"
    by (simp only: of_int_le_iff)
  then have "of_int (round_half_even (x / 2 powi e)) * 2 powi e \<le> (of_int N :: rat)"
    by (simp add: p field_simps)
  then show ?thesis using False by (simp add: float_round_def Let_def e_def)
qed

lemma truediv_bounds:
  assumes "a \<le> b" and "0 < b"
  shows "0 \<le> truediv a b" and "truediv a b \<le> 1"
proof -
  have q: "(0::rat) \<le> of_nat a / of_nat b" "(of_nat a / of_nat b :: rat) \<le> of_int 1"
    using assms by simp_all
  show "0 \<le> truediv a b" unfolding truediv_def by (rule float_round_nonneg[OF q(1)])
  have "float_round (of_nat a / of_nat b) \<le> of_int 1"
    by (rule float_round_le[OF q]) simp
  then show "truediv a b \<le> 1" by (simp add: truediv_def)
qed

lemma percentage_bounds:
  assumes "a \<le> b" and "0 < b"
  shows "0 \<le> float_mul (truediv a b) 100" and "float_mul (truediv a b) 100 \<le> 100"
proof -
  note t = truediv_bounds[OF assms]
  have q: "0 \<le> truediv a b * 100" "truediv a b * 100 \<le> of_int 100" using t by simp_all
  show "0 \<le> float_mul (truediv a b) 100" unfolding float_mul_def by (rule float_round_nonneg[OF q(1)])
  have "float_round (truediv a b * 100) \<le> of_int 100"
    by (rule float_round_le[OF q]) (simp add: power_int_def)
  then show "float_mul (truediv a b) 100 \<le> 100" by (simp add: float_mul_def)
qed

lemma summarize_props:
  "total_shared (summarize ps) = one_to_one (summarize ps) + one_to_many (summarize ps)
      + many_to_one (summarize ps) + many_to_many (summarize ps)
   \<and> (total_shared (summarize ps) > 0 \<longrightarrow>
        percentage (summarize ps)
          = float_mul (truediv (one_to_one (summarize ps)) (total_shared (summarize ps))) 100)
   \<and> (total_shared (summarize ps) = 0 \<longrightarrow> percentage (summarize ps) = 0)
   \<and> 0 \<le> percentage (summarize ps) \<and> percentage (summarize ps) \<le> 100"
proof -
  define t where "t = one_to_one ps + one_to_many ps + many_to_one ps + many_to_many ps"
  have f: "total_shared (summarize ps) = t" "one_to_one (summarize ps) = one_to_one ps"
    "one_to_many (summarize ps) = one_to_many ps" "many_to_one (summarize ps) = many_to_one ps"
    "many_to_many (summarize ps) = many_to_many ps"
    "percentage (summarize ps) = (if t > 0 then float_mul (truediv (one_to_one ps) t) 100 else 0)"
    by (simp_all add: summarize_def Let_def t_def)
  have le: "one_to_one ps \<le> t" by (simp add: t_def)
  have "0 \<le> (if t > 0 then float_mul (truediv (one_to_one ps) t) 100 else 0)"
       "(if t > 0 then float_mul (truediv (one_to_one ps) t) 100 else 0) \<le> 100"
    using percentage_bounds[OF le] by simp_all
  then show ?thesis unfolding f by (simp add: t_def)
qed

section \<open>Properties of the Strict Alignment Extractor\<close>

lemma codes_cases:
  obtains "codes = []" | c where "codes = [c]" | c c' cs where "codes = c # c' # cs"
  by (cases codes rule: list.exhaust[case_product list.exhaust]) (metis list.exhaust)+

lemma scan_markets_dict:
  "\<forall>m\<in>set ms. length (dict_get mc m []) \<le> 1 \<Longrightarrow>
     scan_markets ms (Dict mc) (s, cf, n)
       = Inr (s, found_codes ms mc cf, n + length (filter (\<lambda>m. length (dict_get mc m []) = 1) ms))"
proof (induction ms arbitrary: s cf n)
  case Nil
  then show ?case by simp
next
  case (Cons m ms)
  then have le: "length (dict_get mc m []) \<le> 1" and rest: "\<forall>m\<in>set ms. length (dict_get mc m []) \<le> 1"
    by simp_all
  show ?case
  proof (cases "dict_get mc m []" rule: codes_cases)
    case 1
    then show ?thesis by (simp add: entry_get_Dict Cons.IH[OF rest])
  next
    case (2 c)
    then show ?thesis by (simp add: entry_get_Dict Cons.IH[OF rest])
  next
    case (3 c c' cs)
    with le show ?thesis by simp
  qed
qed

lemma scan_markets_not_strict:
  "\<exists>m\<in>set ms. 1 < length (dict_get mc m []) \<Longrightarrow>
     \<exists>cf' n'. scan_markets ms (Dict mc) (s, cf, n) = Inr (False, cf', n')"
proof (induction ms arbitrary: s cf n)
  case Nil
  then show ?case by simp
next
  case (Cons m ms)
  show ?case
  proof (cases "dict_get mc m []" rule: codes_cases)
    case 1
    with Cons.prems have "\<exists>m\<in>set ms. 1 < length (dict_get mc m [])" by auto
    from Cons.IH[OF this] 1 show ?thesis by (simp add: entry_get_Dict)
  next
    case (2 c)
    with Cons.prems have "\<exists>m\<in>set ms. 1 < length (dict_get mc m [])" by auto
    from Cons.IH[OF this] 2 show ?thesis by (simp add: entry_get_Dict)
  next
    case (3 c c' cs)
    then show ?thesis by (simp add: entry_get_Dict)
  qed
qed

lemma scan_markets_tuple: "scan_markets (m # ms) (Tuple t) st = Inl AttributeError"
  by (cases st) (simp add: entry_get_Tuple)

lemma strict_prefixes_step:
  "strict_prefixes ((p, Dict mc) # items) ms rows
     = strict_prefixes items ms
         (if qualifies ms (p, mc) then rows @ [strict_row ms (p, mc)] else rows)"
proof (cases "\<forall>m\<in>set ms. length (dict_get mc m []) \<le> 1")
  case True
  then have q: "qualifies ms (p, mc) = (2 \<le> length (filter (\<lambda>m. length (dict_get mc m []) = 1) ms))"
    by (simp add: qualifies_def)
  show ?thesis
    by (simp add: scan_markets_dict[OF True] q strict_row_def)
next
  case False
  then have "\<exists>m\<in>set ms. 1 < length (dict_get mc m [])" by (auto simp: not_le)
  from scan_markets_not_strict[OF this, of True "[]" 0] obtain cf' n'
    where "scan_markets ms (Dict mc) (True, [], 0) = Inr (False, cf', n')" by blast
  moreover have "\<not> qualifies ms (p, mc)" using False by (simp add: qualifies_def)
  ultimately show ?thesis by simp
qed

lemma strict_prefixes_dict:
  "strict_prefixes (dict_entries L) ms rows
     = Inr (rows @ map (strict_row ms) (filter (qualifies ms) L))"
proof (induction L arbitrary: rows)
  case Nil
  then show ?case by (simp add: dict_entries_def)
next
  case (Cons it L)
  obtain p mc where it: "it = (p, mc)" by (cases it)
  have "strict_prefixes (dict_entries (it # L)) ms rows
          = strict_prefixes (dict_entries L) ms
              (if qualifies ms (p, mc) then rows @ [strict_row ms (p, mc)] else rows)"
    unfolding it using strict_prefixes_step[of p mc "dict_entries L" ms rows]
    by (simp add: dict_entries_def)
  then show ?case unfolding it by (simp add: Cons.IH)
qed

lemma strict_prefixes_tuple:
  "strict_prefixes ((p, Tuple t) # items) (m # ms) rows = Inl AttributeError"
  by (simp add: entry_get_Tuple)

lemma get_strict_body_dict:
  "distinct (map fst L) \<Longrightarrow>
     get_strict_one_to_one_body (map fst L) (map (\<lambda>(p, mc). Dict mc) L) markets
       = Inr (map (strict_row markets) (filter (qualifies markets) L))"
  by (simp add: get_strict_one_to_one_body_def dict_zip_dict_entries strict_prefixes_dict)

lemma get_strict_body_page:
  assumes "distinct (map fst L)" and "L \<noteq> []" and "markets \<noteq> []"
  shows "get_strict_one_to_one_body (lookup_keys_of L) (lookup_values_of L) markets
           = Inl AttributeError"
proof -
  from assms(2) obtain p val items where L: "L = (p, val) # items" by (cases L) auto
  from assms(3) obtain m ms where M: "markets = m # ms" by (cases markets) auto
  show ?thesis
    unfolding get_strict_one_to_one_body_def Let_def dict_zip_page_values[OF assms(1)]
    unfolding L M by (simp add: entry_get_Tuple)
qed

lemma get_strict_cached_hit:
  "map_of cache markets = Some stored \<Longrightarrow>
     get_strict_one_to_one_cached cache lookup_keys lookup_values markets = (Inr stored, cache)"
  by (simp add: get_strict_one_to_one_cached_def)

lemma get_strict_cached_miss:
  "map_of cache markets = None \<Longrightarrow>
     get_strict_one_to_one_cached cache lookup_keys lookup_values markets
       = (case get_strict_one_to_one_body lookup_keys lookup_values markets of
            Inl e \<Rightarrow> (Inl e, cache)
          | Inr result \<Rightarrow> (Inr result, dict_set cache markets result))"
  by (simp add: get_strict_one_to_one_cached_def)

lemma map_of_found_codes:
  "map_of (found_codes ms mc cf) m
     = (if m \<in> set ms \<and> length (dict_get mc m []) = 1 then Some (dict_get mc m [] ! 0)
        else map_of cf m)"
  by (induction ms arbitrary: cf) (auto simp: map_of_dict_set)

lemma strict_row_prefix: "map_of (strict_row ms (p, mc)) HS_Prefix = Some (Text p)"
  by (simp add: strict_row_def map_of_fill_row_prefix map_of_dict_set)

lemma strict_row_code:
  assumes "m \<in> set ms"
  shows "map_of (strict_row ms (p, mc)) (Code_of m)
           = Some (Text (if length (dict_get mc m []) = 1 then dict_get mc m [] ! 0 else []))"
proof -
  have "dict_get (found_codes ms mc []) m []
          = (if length (dict_get mc m []) = 1 then dict_get mc m [] ! 0 else [])"
    using assms by (simp add: dict_get_def map_of_found_codes)
  then show ?thesis using assms by (simp add: strict_row_def map_of_fill_row_code)
qed

lemma strict_rows_for_prefix:
  assumes "distinct (map fst L)" and "(p, mc) \<in> set L"
  shows "filter (\<lambda>r. map_of r HS_Prefix = Some (Text p))
           (map (strict_row ms) (filter (qualifies ms) L))
         = (if qualifies ms (p, mc) then [strict_row ms (p, mc)] else [])"
proof -
  have key: "(\<lambda>r. map_of r HS_Prefix = Some (Text p)) \<circ> strict_row ms = (\<lambda>it. fst it = p)"
    by (auto simp: fun_eq_iff strict_row_prefix)
  have "filter (\<lambda>r. map_of r HS_Prefix = Some (Text p)) (map (strict_row ms) (filter (qualifies ms) L))
          = map (strict_row ms) (filter (\<lambda>it. fst it = p) (filter (qualifies ms) L))"
    by (simp only: filter_map key)
  also have "filter (\<lambda>it. fst it = p) (filter (qualifies ms) L)
          = filter (qualifies ms) (filter (\<lambda>it. fst it = p) L)"
    by (simp add: conj_commute)
  also have "\<dots> = filter (qualifies ms) [(p, mc)]"
    by (simp only: filter_distinct_key[OF assms])
  finally show ?thesis by simp
qed

lemma qualifies_built:
  assumes "distinct markets" and "(p, mc) \<in> set (build_prefix_lookup_body df markets)"
  shows "qualifies markets (p, mc) \<longleftrightarrow>
           (\<forall>m\<in>set markets. code_count df m p \<le> 1)
           \<and> 2 \<le> card {m \<in> set markets. code_count df m p = 1}"
proof -
  have cnt: "\<And>m. m \<in> set markets \<Longrightarrow> length (dict_get mc m []) = code_count df m p"
    by (rule build_prefix_lookup_body_entry[OF assms(2)])
  have "length (filter (\<lambda>m. length (dict_get mc m []) = 1) markets)
          = length (filter (\<lambda>m. code_count df m p = 1) markets)"
    by (rule arg_cong[where f = length], rule filter_cong) (simp_all add: cnt)
  also have "\<dots> = card {m \<in> set markets. code_count df m p = 1}"
    using distinct_length_filter[OF assms(1), of "\<lambda>m. code_count df m p = 1"]
    by (simp add: Int_def conj_commute)
  finally show ?thesis by (simp add: qualifies_def cnt)
qed

section \<open>Calls answered by the body, on dict entries\<close>

text \<open>
  When the key is not stored and the entries are dicts, the two functions return what the
  specification describes: the relation of every pair at every prefix follows the rule of
  the distinct code counts, the counters add up to the number of prefixes, swapping the
  markets exchanges OneToMany and ManyToOne, and the percentage is the rounded quotient,
  between 0 and 100.
\<close>

lemma analyze_pairs_cached_dict_miss:
  assumes "distinct (map fst L)" and "map_of cache markets = None"
  shows "analyze_pairs_cached cache (map fst L) (map (\<lambda>(p, mc). Dict mc) L) markets
           = (Inr (report_of L markets), dict_set cache markets (report_of L markets))"
  by (simp add: analyze_pairs_cached_miss[OF assms(2)] analyze_pairs_body_dict[OF assms(1)])

lemma analyze_pairs_cached_page_miss:
  assumes "distinct (map fst L)" and "L \<noteq> []" and "combinations2 markets \<noteq> []"
    and "map_of cache markets = None"
  shows "analyze_pairs_cached cache (lookup_keys_of L) (lookup_values_of L) markets
           = (Inl AttributeError, cache)"
  by (simp add: analyze_pairs_cached_miss[OF assms(4)] analyze_pairs_body_page[OF assms(1,2,3)])

lemma get_strict_cached_dict_miss:
  assumes "distinct (map fst L)" and "map_of cache markets = None"
  shows "get_strict_one_to_one_cached cache (map fst L) (map (\<lambda>(p, mc). Dict mc) L) markets
           = (Inr (map (strict_row markets) (filter (qualifies markets) L)),
              dict_set cache markets (map (strict_row markets) (filter (qualifies markets) L)))"
  by (simp add: get_strict_cached_miss[OF assms(2)] get_strict_body_dict[OF assms(1)])

lemma get_strict_cached_page_miss:
  assumes "distinct (map fst L)" and "L \<noteq> []" and "markets \<noteq> []"
    and "map_of cache markets = None"
  shows "get_strict_one_to_one_cached cache (lookup_keys_of L) (lookup_values_of L) markets
           = (Inl AttributeError, cache)"
  by (simp add: get_strict_cached_miss[OF assms(4)] get_strict_body_page[OF assms(1,2,3)])

lemma report_classification:
  assumes "(A, B) \<in> set (combinations2 markets)" and "p \<in> prefix ` set df"
  shows "\<exists>rows row.
           map_of (fst (report_of (build_prefix_lookup_body df markets) markets)) (A, B) = Some rows
         \<and> filter (\<lambda>r. map_of r HS_Prefix = Some (Text p)) rows = [row]
         \<and> map_of row Relation
             = Some (Rel (relation_spec (code_count df A p) (code_count df B p)))"
proof -
  let ?L = "build_prefix_lookup_body df markets"
  have d: "distinct (map fst ?L)" by (rule distinct_build_prefix_lookup_body)
  from assms(2) have "p \<in> fst ` set ?L" by (simp only: set_keys_build_prefix_lookup_body)
  then obtain mc where mc: "(p, mc) \<in> set ?L" by auto
  from assms(1) have AB: "A \<in> set markets" "B \<in> set markets"
    by (auto dest: combinations2_subset)
  have 1: "map_of (fst (report_of ?L markets)) (A, B) = Some (map (row_at A B) ?L)"
    by (rule report_rows[OF assms(1)])
  have 2: "filter (\<lambda>r. map_of r HS_Prefix = Some (Text p)) (map (row_at A B) ?L)
             = [row_at A B (p, mc)]"
    by (rule rows_for_prefix[OF d mc])
  have "rel_at A B mc = relation_spec (code_count df A p) (code_count df B p)"
    by (simp only: rel_at_def build_prefix_lookup_body_entry[OF mc AB(1)]
          build_prefix_lookup_body_entry[OF mc AB(2)])
  then have 3: "map_of (row_at A B (p, mc)) Relation
      = Some (Rel (relation_spec (code_count df A p) (code_count df B p)))"
    by (simp only: row_at_relation)
  note c = conjI[OF 1 conjI[OF 2 3]]
  show ?thesis
    by (rule exI[of _ "map (row_at A B) ?L"], rule exI[of _ "row_at A B (p, mc)"]) (rule c)
qed

lemma report_totals:
  assumes "(A, B) \<in> set (combinations2 markets)"
  shows "\<exists>s. map_of (snd (report_of L markets)) (A, B) = Some s
           \<and> one_to_one s + one_to_many s + many_to_one s + many_to_many s + no_match s = length L"
proof -
  let ?s = "summarize (tally A B L pair_stats0)"
  have 1: "map_of (snd (report_of L markets)) (A, B) = Some ?s" by (rule report_stats[OF assms])
  have 2: "one_to_one ?s + one_to_many ?s + many_to_one ?s + many_to_many ?s + no_match ?s = length L"
    by (simp only: summarize_fields tally_total)
  show ?thesis by (rule exI[of _ ?s]) (rule conjI[OF 1 2])
qed

lemma report_symmetry:
  assumes "(A, B) \<in> set (combinations2 markets)" and "(B, A) \<in> set (combinations2 markets')"
  shows "\<exists>s s'. map_of (snd (report_of L markets)) (A, B) = Some s
           \<and> map_of (snd (report_of L markets')) (B, A) = Some s'
           \<and> one_to_many s' = many_to_one s \<and> many_to_one s' = one_to_many s
           \<and> one_to_one s' = one_to_one s \<and> many_to_many s' = many_to_many s
           \<and> no_match s' = no_match s"
proof -
  let ?s = "summarize (tally A B L pair_stats0)"
  let ?s' = "summarize (tally B A L pair_stats0)"
  have 1: "map_of (snd (report_of L markets)) (A, B) = Some ?s" by (rule report_stats[OF assms(1)])
  have 2: "map_of (snd (report_of L markets')) (B, A) = Some ?s'" by (rule report_stats[OF assms(2)])
  have 3: "one_to_many ?s' = many_to_one ?s \<and> many_to_one ?s' = one_to_many ?s
           \<and> one_to_one ?s' = one_to_one ?s \<and> many_to_many ?s' = many_to_many ?s
           \<and> no_match ?s' = no_match ?s"
    by (simp only: summarize_fields tally_swapped[of B A L] simp_thms)
  note c = conjI[OF 1 conjI[OF 2 3]]
  show ?thesis by (rule exI[of _ ?s], rule exI[of _ ?s']) (rule c)
qed

lemma report_percentage:
  assumes "(A, B) \<in> set (combinations2 markets)"
  shows "\<exists>s. map_of (snd (report_of L markets)) (A, B) = Some s
           \<and> total_shared s = one_to_one s + one_to_many s + many_to_one s + many_to_many s
           \<and> (total_shared s > 0 \<longrightarrow>
                percentage s = float_mul (truediv (one_to_one s) (total_shared s)) 100)
           \<and> (total_shared s = 0 \<longrightarrow> percentage s = 0)
           \<and> 0 \<le> percentage s \<and> percentage s \<le> 100"
proof -
  let ?ps = "tally A B L pair_stats0"
  have 1: "map_of (snd (report_of L markets)) (A, B) = Some (summarize ?ps)"
    by (rule report_stats[OF assms])
  note c = conjI[OF 1 summarize_props[of ?ps]]
  show ?thesis by (rule exI[of _ "summarize ?ps"]) (rule c)
qed


section \<open>Properties of the Entity Mapper\<close>

lemma set_codes_Nil: "set_codes r m (sample_codes []) = r"
  by (simp add: sample_codes_def enumerate_eq_zip)

lemma map_targets_relation:
  "map_of (map_targets ts mc sc r) (Relation_of t)
     = (if t \<in> set ts then Some (Rel (map_relation sc (length (dict_get mc t []))))
        else map_of r (Relation_of t))"
  by (induction ts arbitrary: r) (auto simp: Let_def map_of_set_codes map_of_dict_set)

lemma map_targets_other:
  "\<forall>t. k \<noteq> Relation_of t \<Longrightarrow> \<forall>t i. k \<noteq> Code t i \<Longrightarrow>
     map_of (map_targets ts mc sc r) k = map_of r k"
  by (induction ts arbitrary: r) (auto simp: Let_def map_of_set_codes map_of_dict_set)

lemma map_targets_no_codes:
  "\<forall>t\<in>set ts. dict_get mc t [] = [] \<Longrightarrow>
     map_of (map_targets ts mc sc r) (Code t i) = map_of r (Code t i)"
  by (induction ts arbitrary: r) (auto simp: Let_def set_codes_Nil map_of_dict_set)

lemma dict_get_mini_lookup:
  "dict_get (mini_lookup_of ps lookup mini) p []
     = (if p \<in> set ps then dict_get lookup p [] else dict_get mini p [])"
  by (induction ps arbitrary: mini) (auto simp: dict_get_dict_set)

lemma map_rows_eq:
  "map_rows rs mini s ts acc = acc @ map (\<lambda>r. map_row r mini s ts) rs"
  by (induction rs arbitrary: acc) auto

lemma map_row_mini:
  "dict_get mini (prefix r) [] = dict_get lookup (prefix r) [] \<Longrightarrow>
     map_row r mini s ts = map_row r lookup s ts"
  by (simp add: map_row_def)

lemma map_asins_fast_eq:
  "map_asins_fast asin_df lookup s ts = map (\<lambda>r. map_row r lookup s ts) asin_df"
proof -
  let ?mini = "mini_lookup_of (unique (map prefix asin_df)) lookup []"
  have "map (\<lambda>r. map_row r ?mini s ts) asin_df = map (\<lambda>r. map_row r lookup s ts) asin_df"
  proof (rule map_cong[OF refl])
    fix r assume "r \<in> set asin_df"
    then have "prefix r \<in> set (unique (map prefix asin_df))" by (simp add: set_unique)
    then have "dict_get ?mini (prefix r) [] = dict_get lookup (prefix r) []"
      by (simp add: dict_get_mini_lookup)
    then show "map_row r ?mini s ts = map_row r lookup s ts" by (rule map_row_mini)
  qed
  then show ?thesis by (simp add: map_asins_fast_def Let_def map_rows_eq)
qed

lemma map_row_fixed:
  "map_of (map_row r lookup s ts) ASIN_col = Some (Text (ASIN r))"
  "map_of (map_row r lookup s ts) Source_Code = Some (Text (hs_code r))"
  "map_of (map_row r lookup s ts) Prefix = Some (Text (prefix r))"
  by (simp_all add: map_row_def Let_def map_targets_other map_of_dict_set)

lemma map_row_relation:
  "t \<in> set ts \<Longrightarrow>
     map_of (map_row r lookup s ts) (Relation_of t)
       = Some (Rel (map_relation (length (dict_get (dict_get lookup (prefix r) []) s []))
                                 (length (dict_get (dict_get lookup (prefix r) []) t []))))"
  by (simp add: map_row_def Let_def map_targets_relation)

lemma mapper_relation_counts:
  assumes "i < length asin_df" and "prefix (asin_df ! i) \<in> prefix ` set df"
    and "s \<in> set ms" and "t \<in> set ms" and "t \<in> set ts"
  shows "map_of (map_asins_fast asin_df (build_prefix_lookup_body df ms) s ts ! i) (Relation_of t)
           = Some (Rel (map_relation (code_count df s (prefix (asin_df ! i)))
                                     (code_count df t (prefix (asin_df ! i)))))"
proof -
  have "map_asins_fast asin_df (build_prefix_lookup_body df ms) s ts ! i
          = map_row (asin_df ! i) (build_prefix_lookup_body df ms) s ts"
    using assms(1) by (simp add: map_asins_fast_eq)
  then show ?thesis
    by (simp only: map_row_relation[OF assms(5)] dict_get_build_prefix_lookup_body[OF assms(2) assms(3)]
          dict_get_build_prefix_lookup_body[OF assms(2) assms(4)])
qed

text \<open>
  Claim C10.  The mapper returns one row per entity of its input, in the input's order; the
  row of an entity carries its ASIN, its source code, its prefix and a relation for every
  requested target market.
\<close>

theorem mapper_rows:
  "length (map_asins_fast asin_df lookup source_market target_markets) = length asin_df
   \<and> (\<forall>i<length asin_df.
        map_of (map_asins_fast asin_df lookup source_market target_markets ! i) ASIN_col
          = Some (Text (ASIN (asin_df ! i)))
      \<and> map_of (map_asins_fast asin_df lookup source_market target_markets ! i) Source_Code
          = Some (Text (hs_code (asin_df ! i)))
      \<and> map_of (map_asins_fast asin_df lookup source_market target_markets ! i) Prefix
          = Some (Text (prefix (asin_df ! i)))
      \<and> (\<forall>t\<in>set target_markets. \<exists>rel.
            map_of (map_asins_fast asin_df lookup source_market target_markets ! i) (Relation_of t)
              = Some (Rel rel)))"
  by (simp add: map_asins_fast_eq map_row_fixed map_row_relation)

theorem mapper_rows_witness:
  "0 < length [entity] \<and> KSA \<in> set [KSA]
   \<and> length (map_asins_fast [entity] [] UAE [KSA]) = 1
   \<and> map_of (map_asins_fast [entity] [] UAE [KSA] ! 0) ASIN_col = Some (Text (py ''B01''))
   \<and> map_of (map_asins_fast [entity] [] UAE [KSA] ! 0) Source_Code = Some (Text (py ''09000055''))
   \<and> map_of (map_asins_fast [entity] [] UAE [KSA] ! 0) Prefix = Some (Text (py ''090000''))
   \<and> (\<exists>rel. map_of (map_asins_fast [entity] [] UAE [KSA] ! 0) (Relation_of KSA) = Some (Rel rel))"
proof -
  have h1: "0 < length [entity]" by simp
  have h2: "KSA \<in> set [KSA]" by simp
  have f: "ASIN ([entity] ! 0) = py ''B01''" "hs_code ([entity] ! 0) = py ''09000055''"
    "prefix ([entity] ! 0) = py ''090000''"
    by (simp_all add: entity_def)
  from mapper_rows[of "[entity]" "[]" UAE "[KSA]"]
  have len: "length (map_asins_fast [entity] [] UAE [KSA]) = length [entity]"
    and all: "\<forall>i<length [entity].
        map_of (map_asins_fast [entity] [] UAE [KSA] ! i) ASIN_col = Some (Text (ASIN ([entity] ! i)))
      \<and> map_of (map_asins_fast [entity] [] UAE [KSA] ! i) Source_Code = Some (Text (hs_code ([entity] ! i)))
      \<and> map_of (map_asins_fast [entity] [] UAE [KSA] ! i) Prefix = Some (Text (prefix ([entity] ! i)))
      \<and> (\<forall>t\<in>set [KSA]. \<exists>rel.
            map_of (map_asins_fast [entity] [] UAE [KSA] ! i) (Relation_of t) = Some (Rel rel))"
    by blast+
  from all h1 have "map_of (map_asins_fast [entity] [] UAE [KSA] ! 0) ASIN_col = Some (Text (ASIN ([entity] ! 0)))
      \<and> map_of (map_asins_fast [entity] [] UAE [KSA] ! 0) Source_Code = Some (Text (hs_code ([entity] ! 0)))
      \<and> map_of (map_asins_fast [entity] [] UAE [KSA] ! 0) Prefix = Some (Text (prefix ([entity] ! 0)))
      \<and> (\<forall>t\<in>set [KSA]. \<exists>rel.
            map_of (map_asins_fast [entity] [] UAE [KSA] ! 0) (Relation_of t) = Some (Rel rel))"
    by blast
  with h2 len show ?thesis unfolding f by simp
qed

text \<open>
  Claim C8.  For an entity whose prefix is not a key of the index, every market has zero
  codes at the prefix, the relation of every target market is NoMatch, and the row has no
  sample code.
\<close>

theorem unknown_prefix:
  assumes "i < length asin_df" and "prefix (asin_df ! i) \<notin> fst ` set lookup"
  shows "(\<forall>m. dict_get (dict_get lookup (prefix (asin_df ! i)) []) m [] = [])
       \<and> (\<forall>t\<in>set target_markets.
            map_of (map_asins_fast asin_df lookup source_market target_markets ! i) (Relation_of t)
              = Some (Rel NoMatch))
       \<and> (\<forall>t j. map_of (map_asins_fast asin_df lookup source_market target_markets ! i) (Code t j)
              = None)"
proof -
  let ?r = "asin_df ! i"
  have mc: "dict_get lookup (prefix ?r) [] = []" by (rule dict_get_absent[OF assms(2)])
  have 1: "\<forall>m. dict_get (dict_get lookup (prefix ?r) []) m [] = []"
    by (simp add: mc dict_get_Nil)
  have row: "map_asins_fast asin_df lookup source_market target_markets ! i
               = map_row ?r lookup source_market target_markets"
    using assms(1) by (simp add: map_asins_fast_eq)
  have 2: "\<forall>t\<in>set target_markets.
            map_of (map_asins_fast asin_df lookup source_market target_markets ! i) (Relation_of t)
              = Some (Rel NoMatch)"
    unfolding row by (simp add: map_row_relation mc dict_get_Nil map_relation_def)
  have 3: "\<forall>t j. map_of (map_asins_fast asin_df lookup source_market target_markets ! i) (Code t j)
              = None"
    unfolding row
    by (simp add: map_row_def Let_def mc dict_get_Nil map_targets_no_codes map_of_dict_set)
  from 1 2 3 show ?thesis by (intro conjI)
qed

theorem unknown_prefix_witness:
  "0 < length [entity] \<and> prefix ([entity] ! 0) \<notin> fst ` set (fst (build_prefix_lookup [] aligned_df [UAE, KSA]))
   \<and> map_of (map_asins_fast [entity] (fst (build_prefix_lookup [] aligned_df [UAE, KSA])) UAE [KSA] ! 0)
        (Relation_of KSA) = Some (Rel NoMatch)"
proof -
  have h1: "0 < length [entity]" by simp
  have h2: "prefix ([entity] ! 0) \<notin> fst ` set (fst (build_prefix_lookup [] aligned_df [UAE, KSA]))"
    by (simp add: build_prefix_lookup_cold set_keys_build_prefix_lookup_body aligned_df_def entity_def py_def)
  from unknown_prefix[OF h1 h2, of "[KSA]" UAE] h1 h2 show ?thesis by simp
qed

subsection \<open>The mapper's rule against the pairwise rule\<close>

text \<open>
  The chain of the mapper starts with \<open>tc == 0\<close> alone.  It agrees with the pairwise rule
  when the source market has a code at the prefix or the target has none; when the source
  market has none and the target has some, it falls through to its last branch.
\<close>

lemma map_relation_source_present:
  "1 \<le> sc \<Longrightarrow> map_relation sc tc = relation_spec sc tc"
  by (simp add: map_relation_def relation_spec_def)

lemma map_relation_target_absent: "map_relation sc 0 = NoMatch"
  by (simp add: map_relation_def)

lemma map_relation_source_absent: "1 \<le> tc \<Longrightarrow> map_relation 0 tc = ManyToMany"
  by (simp add: map_relation_def)

text \<open>
  Claim C1 fails on the code.  KSA has one code at prefix 090000 and UAE none.  For an
  entity with that prefix, source market UAE and target KSA, so \<open>sc = 0\<close> and \<open>tc = 1\<close>,
  the pairwise chain gives NoMatch and the mapper reports ManyToMany.
\<close>

theorem mapper_source_without_codes:
  "code_count ksa_only_df UAE (py ''090000'') = 0
   \<and> code_count ksa_only_df KSA (py ''090000'') = 1
   \<and> fst (classify 0 1 pair_stats0) = NoMatch
   \<and> map_of (map_asins_fast [entity] (fst (build_prefix_lookup [] ksa_only_df [UAE, KSA])) UAE [KSA] ! 0)
        (Relation_of KSA) = Some (Rel ManyToMany)"
proof -
  have c: "code_count ksa_only_df UAE (py ''090000'') = 0"
          "code_count ksa_only_df KSA (py ''090000'') = 1"
    by (simp_all add: code_count_code ksa_only_df_def UAE_def KSA_def py_def)
  have p: "prefix entity = py ''090000''" by (simp add: entity_def)
  have "prefix ([entity] ! 0) \<in> prefix ` set ksa_only_df"
    by (simp add: p ksa_only_df_def)
  from mapper_relation_counts[OF _ this, of UAE "[UAE, KSA]" KSA "[KSA]"]
  have r: "map_of (map_asins_fast [entity] (fst (build_prefix_lookup [] ksa_only_df [UAE, KSA])) UAE [KSA] ! 0)
        (Relation_of KSA) = Some (Rel ManyToMany)"
    by (simp add: build_prefix_lookup_cold p c map_relation_def)
  have q: "fst (classify 0 1 pair_stats0) = NoMatch" by (simp add: classify_def)
  from c q r show ?thesis by (intro conjI)
qed

section \<open>The calls of the Analysis page\<close>

lemma first_run_pairs:
  "analyze_pairs_cached [] [] [] [UAE, KSA] = (Inr empty_report, [([UAE, KSA], empty_report)])"
  by (simp add: analyze_pairs_cached_def analyze_pairs_body_def dict_zip_def dict_set_def
        summarize_def pair_stats0_def empty_report_def)

lemma first_run_pairs_cache: "first_run_pairs_cache = [([UAE, KSA], empty_report)]"
  by (simp add: first_run_pairs_cache_def first_run_pairs)

lemma first_run_strict:
  "get_strict_one_to_one_cached [] [] [] [UAE, KSA] = (Inr [], [([UAE, KSA], [])])"
  by (simp add: get_strict_one_to_one_cached_def get_strict_one_to_one_body_def dict_zip_def
        dict_set_def)

lemma first_run_strict_cache: "first_run_strict_cache = [([UAE, KSA], [])]"
  by (simp add: first_run_strict_cache_def first_run_strict)

lemma markets_ne: "UAE \<noteq> KSA"
  by (simp add: UAE_def KSA_def py_def)

lemma built_nonempty: "p \<in> prefix ` set df \<Longrightarrow> build_prefix_lookup_body df ms \<noteq> []"
  using set_keys_build_prefix_lookup_body[of df ms] by auto

lemma page_call_raises:
  assumes "p \<in> prefix ` set df" and "combinations2 markets \<noteq> []"
    and "map_of cache markets = None"
  shows "analyze_pairs_cached cache (page_keys df ms) (page_values df ms) markets
         = (Inl AttributeError, cache)"
  unfolding page_keys_def page_values_def build_prefix_lookup_cold
  by (rule analyze_pairs_cached_page_miss[OF distinct_build_prefix_lookup_body
        built_nonempty[OF assms(1)] assms(2,3)])

lemma page_strict_call_raises:
  assumes "p \<in> prefix ` set df" and "markets \<noteq> []" and "map_of cache markets = None"
  shows "get_strict_one_to_one_cached cache (page_keys df ms) (page_values df ms) markets
         = (Inl AttributeError, cache)"
  unfolding page_keys_def page_values_def build_prefix_lookup_cold
  by (rule get_strict_cached_page_miss[OF distinct_build_prefix_lookup_body
        built_nonempty[OF assms(1)] assms(2,3)])

lemma scenario_prefix: "py ''100001'' \<in> prefix ` set scenario_df"
  by (simp add: scenario_df_def)

lemma aligned_prefix: "py ''100001'' \<in> prefix ` set aligned_df"
  by (simp add: aligned_df_def)

lemma scenario_counts:
  "code_count scenario_df UAE (py ''100001'') = 1" "code_count scenario_df KSA (py ''100001'') = 2"
  by (simp_all add: code_count_code scenario_df_def UAE_def KSA_def py_def)

lemma aligned_counts:
  "code_count aligned_df UAE (py ''100001'') = 1" "code_count aligned_df KSA (py ''100001'') = 1"
  by (simp_all add: code_count_code aligned_df_def UAE_def KSA_def py_def)


text \<open>
  Claim C2 fails on the code.  In the scenario of the specification UAE has one code and
  KSA two at prefix 100001, so the claim gives the pair one row for the prefix, with
  relation OneToMany.  Called as the Analysis page calls it, the classifier raises
  \<open>AttributeError\<close> at its first \<open>get\<close>, the entries being tuples.  After a first analysis
  on an empty index it does not run at all: the call is answered from the cache, whose key
  is \<open>markets\<close> alone, with the report of that analysis, which has no row.
\<close>

theorem pairwise_call_on_scenario:
  "code_count scenario_df UAE (py ''100001'') = 1
   \<and> code_count scenario_df KSA (py ''100001'') = 2
   \<and> analyze_pairs_cached [] (page_keys scenario_df [UAE, KSA])
         (page_values scenario_df [UAE, KSA]) [UAE, KSA]
       = (Inl AttributeError, [])
   \<and> analyze_pairs_cached first_run_pairs_cache (page_keys scenario_df [UAE, KSA])
         (page_values scenario_df [UAE, KSA]) [UAE, KSA]
       = (Inr empty_report, first_run_pairs_cache)
   \<and> map_of (fst empty_report) (UAE, KSA) = Some []"
proof -
  have 1: "analyze_pairs_cached [] (page_keys scenario_df [UAE, KSA])
         (page_values scenario_df [UAE, KSA]) [UAE, KSA] = (Inl AttributeError, [])"
    by (rule page_call_raises[OF scenario_prefix]) simp_all
  have "map_of first_run_pairs_cache [UAE, KSA] = Some empty_report"
    by (simp add: first_run_pairs_cache)
  then have 2: "analyze_pairs_cached first_run_pairs_cache (page_keys scenario_df [UAE, KSA])
         (page_values scenario_df [UAE, KSA]) [UAE, KSA]
       = (Inr empty_report, first_run_pairs_cache)"
    by (rule analyze_pairs_cached_hit)
  have 3: "map_of (fst empty_report) (UAE, KSA) = Some []" by (simp add: empty_report_def)
  from scenario_counts 1 2 3 show ?thesis by (intro conjI)
qed


text \<open>
  Claim C5 fails on the code.  On the index of the scenario, the call for (UAE, KSA) and
  the call for (KSA, UAE) both raise \<open>AttributeError\<close>.  After a first analysis of
  (UAE, KSA) on an empty index, the call for (UAE, KSA) returns the stored counters, all 0,
  and the call for (KSA, UAE), which has another key, raises: the two calls on one index
  do not give exchanged counts.
\<close>

theorem swapped_calls:
  "analyze_pairs_cached [] (page_keys scenario_df [UAE, KSA])
      (page_values scenario_df [UAE, KSA]) [UAE, KSA] = (Inl AttributeError, [])
   \<and> analyze_pairs_cached [] (page_keys scenario_df [KSA, UAE])
      (page_values scenario_df [KSA, UAE]) [KSA, UAE] = (Inl AttributeError, [])
   \<and> analyze_pairs_cached first_run_pairs_cache (page_keys scenario_df [UAE, KSA])
      (page_values scenario_df [UAE, KSA]) [UAE, KSA] = (Inr empty_report, first_run_pairs_cache)
   \<and> analyze_pairs_cached first_run_pairs_cache (page_keys scenario_df [KSA, UAE])
      (page_values scenario_df [KSA, UAE]) [KSA, UAE] = (Inl AttributeError, first_run_pairs_cache)"
proof -
  have 1: "analyze_pairs_cached [] (page_keys scenario_df [UAE, KSA])
      (page_values scenario_df [UAE, KSA]) [UAE, KSA] = (Inl AttributeError, [])"
    by (rule page_call_raises[OF scenario_prefix]) simp_all
  have 2: "analyze_pairs_cached [] (page_keys scenario_df [KSA, UAE])
      (page_values scenario_df [KSA, UAE]) [KSA, UAE] = (Inl AttributeError, [])"
    by (rule page_call_raises[OF scenario_prefix]) simp_all
  have "map_of first_run_pairs_cache [UAE, KSA] = Some empty_report"
    by (simp add: first_run_pairs_cache)
  then have 3: "analyze_pairs_cached first_run_pairs_cache (page_keys scenario_df [UAE, KSA])
      (page_values scenario_df [UAE, KSA]) [UAE, KSA] = (Inr empty_report, first_run_pairs_cache)"
    by (rule analyze_pairs_cached_hit)
  have "map_of first_run_pairs_cache [KSA, UAE] = None"
    using markets_ne by (simp add: first_run_pairs_cache)
  then have 4: "analyze_pairs_cached first_run_pairs_cache (page_keys scenario_df [KSA, UAE])
      (page_values scenario_df [KSA, UAE]) [KSA, UAE] = (Inl AttributeError, first_run_pairs_cache)"
    by (intro page_call_raises[OF scenario_prefix]) simp_all
  from 1 2 3 4 show ?thesis by (intro conjI)
qed

text \<open>
  Claim C6 fails on the code.  With one code of each market at the only prefix, the claim
  gives \<open>total_shared = 1\<close> and a percentage of 100.  Called as the Analysis page calls
  it, the function raises \<open>AttributeError\<close> in the loop over the prefixes, before lines
  111-113 are reached.
\<close>

theorem percentage_call_on_aligned:
  "code_count aligned_df UAE (py ''100001'') = 1
   \<and> code_count aligned_df KSA (py ''100001'') = 1
   \<and> analyze_pairs_cached [] (page_keys aligned_df [UAE, KSA])
        (page_values aligned_df [UAE, KSA]) [UAE, KSA] = (Inl AttributeError, [])"
proof -
  have 1: "analyze_pairs_cached [] (page_keys aligned_df [UAE, KSA])
        (page_values aligned_df [UAE, KSA]) [UAE, KSA] = (Inl AttributeError, [])"
    by (rule page_call_raises[OF aligned_prefix]) simp_all
  from aligned_counts 1 show ?thesis by (intro conjI)
qed

text \<open>
  Claim C3 fails on the code.  With one code of each market at prefix 100001 the claim
  gives a row for the prefix.  Called as the Analysis page calls it, the extractor raises
  \<open>AttributeError\<close>; after a first analysis on an empty index the call is answered from
  the cache with the stored table, which has no row.
\<close>

theorem strict_call_on_aligned:
  "code_count aligned_df UAE (py ''100001'') = 1
   \<and> code_count aligned_df KSA (py ''100001'') = 1
   \<and> get_strict_one_to_one_cached [] (page_keys aligned_df [UAE, KSA])
        (page_values aligned_df [UAE, KSA]) [UAE, KSA] = (Inl AttributeError, [])
   \<and> get_strict_one_to_one_cached first_run_strict_cache (page_keys aligned_df [UAE, KSA])
        (page_values aligned_df [UAE, KSA]) [UAE, KSA] = (Inr [], first_run_strict_cache)"
proof -
  have 1: "get_strict_one_to_one_cached [] (page_keys aligned_df [UAE, KSA])
        (page_values aligned_df [UAE, KSA]) [UAE, KSA] = (Inl AttributeError, [])"
    by (rule page_strict_call_raises[OF aligned_prefix]) simp_all
  have "map_of first_run_strict_cache [UAE, KSA] = Some []"
    by (simp add: first_run_strict_cache)
  then have 2: "get_strict_one_to_one_cached first_run_strict_cache (page_keys aligned_df [UAE, KSA])
        (page_values aligned_df [UAE, KSA]) [UAE, KSA] = (Inr [], first_run_strict_cache)"
    by (rule get_strict_cached_hit)
  from aligned_counts 1 2 show ?thesis by (intro conjI)
qed

end
